theory Spec2Isabelle
  imports Complex_Main "HOL-Library.Word" "HOL-Library.AList"
begin

section \<open>The runtime core of a catenae link (src/catenae/link.py)\<close>

subsection \<open>Logging and exceptions\<close>

text \<open>
  The logger is an external collaborator. A call \<open>self.logger.log(text, level=...)\<close> is
  modelled as appending an entry to a list; values interpolated into the text are left out
  of the text. A call without a level is recorded at level INFO.
\<close>

datatype level = DEBUG | INFO | WARN | ERROR | EXCEPTION

datatype log_entry = Log (lvl: level) (msg: string)

text \<open>
  Every exception the modelled code can raise is a value. \<open>KafkaException\<close> stands for any
  exception of the bus client, \<open>CallbackError\<close> for any exception raised by the target of a
  callback, \<open>MethodNotFoundError\<close> and \<open>InternalError\<close> are the two exception classes of
  \<open>JsonRPC\<close>.
\<close>

datatype error = ValueError | IndexError | KeyError | TypeError | UnboundLocalError
  | ZeroDivisionError | UnicodeEncodeError | PicklingError | KafkaException | CallbackError
  | AttributeError | MethodNotFoundError | InternalError

subsection \<open>Python values, envelopes and callbacks\<close>

text \<open>
  A Python \<open>str\<close> is the list of its code points, a \<open>bytes\<close> object a list of bytes.
  \<open>str_of\<close> writes a literal.
\<close>

type_synonym py_str = "nat list"

type_synonym py_bytes = "8 word list"

definition str_of :: "string \<Rightarrow> py_str" where
  "str_of s = map of_char s"

text \<open>
  Modelled from the spec: the classes \<open>Electron\<close> (catenae/electron.py) and \<open>Callback\<close>
  (catenae/callback.py) are not part of the sources at hand. An envelope has a key, a value,
  a destination topic, the previous topic, the flag \<open>unpack_if_string\<close> and an ordered list of
  callbacks; a callback has a target, positional arguments, keyword arguments and a kind.
  The values a link handles are dynamically typed: \<open>pyval\<close> keeps the run-time type,
  which the code tests with \<open>type(x) == ...\<close>. \<open>PObj\<close> is any other object (a function, a
  consumer handle, a bus message), referred to by a name.

  A value does not say which of its parts are one and the same object in memory, and
  \<open>pickle.dumps\<close> writes a part it has already written as a reference to the first
  copy. For the key of an envelope, the one object the link pickles on its own, the
  envelope keeps this layout beside the value, as a number: \<open>key_layout\<close> (\<open>0\<close> for a
  key without shared parts).
\<close>

datatype callback_type = USER | COMMIT_KAFKA_MESSAGE

datatype pyval =
    PNone
  | PBool bool
  | PInt int
  | PStr py_str
  | PBytes py_bytes
  | PList "pyval list"
  | PTuple "pyval list"
  | PDict "(pyval \<times> pyval) list"
  | PObj string
  | PElectron electron
and electron =
    Electron (key: pyval) (value': pyval) (topic: pyval) (previous_topic: pyval)
             (unpack_if_string: bool) (callbacks: "callback list") (key_layout: nat)
and callback =
    Callback (target: pyval) (args: pyval) (kwargs: pyval) (kind: callback_type)

text \<open>The truth value Python gives an object in \<open>if x:\<close> and \<open>not x\<close>.\<close>

fun truthy :: "pyval \<Rightarrow> bool" where
  "truthy PNone = False"
| "truthy (PBool b) = b"
| "truthy (PInt n) = (n \<noteq> 0)"
| "truthy (PStr s) = (s \<noteq> [])"
| "truthy (PBytes b) = (b \<noteq> [])"
| "truthy (PList xs) = (xs \<noteq> [])"
| "truthy (PTuple xs) = (xs \<noteq> [])"
| "truthy (PDict kvs) = (kvs \<noteq> [])"
| "truthy (PObj n) = True"
| "truthy (PElectron e) = True"

text \<open>
  The keys of a dictionary and the members of a set must be hashable: a list or a
  dictionary is not, and a tuple is when its items are. \<open>True\<close> and \<open>False\<close> are the same
  keys as \<open>1\<close> and \<open>0\<close>; \<open>dict_key\<close> gives the one key a value stands for.
\<close>

fun hashable :: "pyval \<Rightarrow> bool" where
  "hashable (PList xs) = False"
| "hashable (PDict kvs) = False"
| "hashable (PTuple xs) = (\<forall>x \<in> set xs. hashable x)"
| "hashable v = True"

fun dict_key :: "pyval \<Rightarrow> pyval" where
  "dict_key (PBool b) = PInt (if b then 1 else 0)"
| "dict_key (PTuple xs) = PTuple (map dict_key xs)"
| "dict_key v = v"

text \<open>
  Modelled from the spec: a callback is present ("if any") when it has a target; the
  callbacks built by \<open>_input_handler\<close> start without one. \<open>Callback()\<close> is the user
  callback, \<open>Callback(type_=Callback.COMMIT_KAFKA_MESSAGE)\<close> the commit callback.
\<close>

definition callback_truthy :: "callback \<Rightarrow> bool" where
  "callback_truthy c \<longleftrightarrow> target c \<noteq> PNone"

definition set_target :: "pyval \<Rightarrow> callback \<Rightarrow> callback" where
  "set_target t c = Callback t (args c) (kwargs c) (kind c)"

definition set_args :: "pyval \<Rightarrow> callback \<Rightarrow> callback" where
  "set_args a c = Callback (target c) a (kwargs c) (kind c)"

definition set_kwargs :: "pyval \<Rightarrow> callback \<Rightarrow> callback" where
  "set_kwargs k c = Callback (target c) (args c) k (kind c)"

definition set_callbacks :: "callback list \<Rightarrow> electron \<Rightarrow> electron" where
  "set_callbacks cs e =
     Electron (key e) (value' e) (topic e) (previous_topic e) (unpack_if_string e) cs
       (key_layout e)"

definition set_topic :: "pyval \<Rightarrow> electron \<Rightarrow> electron" where
  "set_topic t e =
     Electron (key e) (value' e) t (previous_topic e) (unpack_if_string e) (callbacks e)
       (key_layout e)"

text \<open>
  \<open>str.encode('utf-8')\<close>: one to four bytes per code point; a surrogate code point
  raises \<open>UnicodeEncodeError\<close>.
\<close>

definition utf8_char :: "nat \<Rightarrow> error + py_bytes" where
  "utf8_char c =
     (if c < 0x80 then Inr [of_nat c]
      else if c < 0x800 then Inr [of_nat (0xC0 + c div 0x40), of_nat (0x80 + c mod 0x40)]
      else if 0xD800 \<le> c \<and> c \<le> 0xDFFF then Inl UnicodeEncodeError
      else if c < 0x10000 then
        Inr [of_nat (0xE0 + c div 0x1000), of_nat (0x80 + (c div 0x40) mod 0x40),
             of_nat (0x80 + c mod 0x40)]
      else
        Inr [of_nat (0xF0 + c div 0x40000), of_nat (0x80 + (c div 0x1000) mod 0x40),
             of_nat (0x80 + (c div 0x40) mod 0x40), of_nat (0x80 + c mod 0x40)])"

fun encode_utf8 :: "py_str \<Rightarrow> error + py_bytes" where
  "encode_utf8 [] = Inr []"
| "encode_utf8 (c # cs) =
     (case utf8_char c of
        Inl e \<Rightarrow> Inl e
      | Inr b \<Rightarrow> (case encode_utf8 cs of Inl e \<Rightarrow> Inl e | Inr bs \<Rightarrow> Inr (b @ bs)))"

subsection \<open>The link and the world around it\<close>

text \<open>
  The state of a link, as far as the modelled methods read and write it. \<open>will_stop\<close> is
  the stop flag that \<open>suicide\<close> raises on every thread. \<open>produced\<close> lists the messages
  accepted by a producer, each with the flag of the producer that took it (\<open>True\<close> for
  \<open>_sync_producer\<close>). \<open>executed\<close> lists the callbacks whose \<open>execute()\<close> has run, in
  order, and \<open>invoked\<close> the calls made to RPC handlers.
\<close>

record message =
  msg_topic :: pyval
  msg_key :: "py_bytes option"
  msg_value :: pyval

datatype invocation = CallArgs py_str "pyval list" | CallKwargs py_str pyval

record link =
  uid :: py_str
  synchronous :: bool
  sequential :: bool
  output_topics :: "py_str list"
  rpc_enabled_methods :: "py_str set"
  output_messages :: "electron list"
  produced :: "(bool \<times> message) list"
  executed :: "callback list"
  invoked :: "invocation list"
  logs :: "log_entry list"
  will_stop :: bool

text \<open>
  What the link does not decide is given by the world: the bytes \<open>pickle.dumps\<close> returns
  for a key object, that is for a key in a layout, and for the sendable projection of an
  envelope (or the exception it raises),
  whether a producer raises on a message, whether the target of a callback raises, and
  what a user's RPC handler does when it is called.
\<close>

datatype outcome = Raises | Returns pyval

record world =
  dumps :: "nat \<Rightarrow> pyval \<Rightarrow> error + py_bytes"
  dumps_sendable :: "electron \<Rightarrow> error + py_bytes"
  producer_raises :: "bool \<Rightarrow> message \<Rightarrow> bool"
  callback_raises :: "callback \<Rightarrow> bool"
  handler :: "invocation \<Rightarrow> outcome"

subsection \<open>Shutdown: \<open>suicide\<close>\<close>

text \<open>
  \<open>suicide\<close> logs the message, at level EXCEPTION or WARN, raises the stop flag of every
  thread and logs a last line. It returns to its caller: the code after the call runs.
\<close>

definition suicide :: "string option \<Rightarrow> bool \<Rightarrow> link \<Rightarrow> link" where
  "suicide message exception s =
     (let message' = (case message of None \<Rightarrow> ''[SUICIDE]'' | Some m \<Rightarrow> ''[SUICIDE] '' @ m)
      in s\<lparr>logs := logs s @ [Log (if exception then EXCEPTION else WARN) message',
                              Log INFO ''stopping threads...''],
           will_stop := True\<rparr>)"

subsection \<open>The producer: \<open>_produce\<close> and \<open>_kafka_producer\<close>\<close>

definition partition_key :: "world \<Rightarrow> link \<Rightarrow> electron \<Rightarrow> error + py_bytes option" where
  "partition_key w s e =
     (if truthy (key e) then
        (case key e of
           PStr k \<Rightarrow> map_sum id Some (encode_utf8 k)
         | k \<Rightarrow> map_sum id Some (dumps w (key_layout e) k))
      else if sequential s then map_sum id Some (encode_utf8 (uid s))
      else Inr None)"

text \<open>
  The destination topic. With no topic on the envelope and no output topic configured,
  \<open>suicide\<close> is called and \<open>self._output_topics[0]\<close> then raises \<open>IndexError\<close>.
\<close>

definition destination :: "link \<Rightarrow> electron \<Rightarrow> (error + pyval) \<times> link" where
  "destination s e =
     (if \<not> truthy (topic e) then
        (case output_topics s of
           [] \<Rightarrow> (Inl IndexError,
                   suicide (Some ''Electron / default output topic unset'') False s)
         | t # _ \<Rightarrow> (Inr (PStr t), s))
      else (Inr (topic e), s))"

definition serialize :: "world \<Rightarrow> electron \<Rightarrow> error + pyval" where
  "serialize w e =
     (case value' e of
        PStr v \<Rightarrow> if unpack_if_string e then Inr (PStr v)
                  else map_sum id PBytes (dumps_sendable w e)
      | _ \<Rightarrow> map_sum id PBytes (dumps_sendable w e))"

text \<open>
  Modelled from the spec: \<open>Callback.execute\<close> applies the target to the arguments. The
  effect of the target is the world's; the model records that the callback has run, or
  the exception of a target that raises, which ends the \<open>for\<close> loop over the callbacks.
\<close>

fun run_callbacks :: "world \<Rightarrow> callback list \<Rightarrow> link \<Rightarrow> error option \<times> link" where
  "run_callbacks w [] s = (None, s)"
| "run_callbacks w (c # cs) s =
     (if callback_raises w c then (Some CallbackError, s)
      else run_callbacks w cs (s\<lparr>executed := executed s @ [c]\<rparr>))"

text \<open>
  The \<open>try\<close> block of \<open>_produce\<close>: the message is handed to the producer, which is
  then polled or flushed. A producer that raises leads to \<open>suicide\<close>.
\<close>

definition submit :: "world \<Rightarrow> bool \<Rightarrow> message \<Rightarrow> link \<Rightarrow> link" where
  "submit w sync m s =
     (if producer_raises w sync m then suicide (Some ''Kafka producer error'') True s
      else s\<lparr>produced := produced s @ [(sync, m)],
             logs := logs s @ [Log DEBUG ''electron produced'']\<rparr>)"

text \<open>
  \<open>_produce(electron, synchronous)\<close>. The first component of the result is the exception
  that leaves the method, if any. After the \<open>try\<close> block the method goes on to the
  callbacks, also when \<open>suicide\<close> has been called.
\<close>

definition produce :: "world \<Rightarrow> pyval \<Rightarrow> bool option \<Rightarrow> link \<Rightarrow> error option \<times> link" where
  "produce w electron synchronous_arg s =
     (case electron of
        PElectron e \<Rightarrow>
          (case partition_key w s e of
             Inl err \<Rightarrow> (Some err, s)
           | Inr pk \<Rightarrow>
               (case destination s e of
                  (Inl err, s1) \<Rightarrow> (Some err, s1)
                | (Inr t, s1) \<Rightarrow>
                    (case serialize w (set_topic t e) of
                       Inl err \<Rightarrow> (Some err, s1)
                     | Inr serialized_electron \<Rightarrow>
                         (let sync = (case synchronous_arg of
                                        None \<Rightarrow> synchronous s1 | Some b \<Rightarrow> b);
                              s2 = submit w sync
                                     \<lparr>msg_topic = t, msg_key = pk,
                                      msg_value = serialized_electron\<rparr> s1
                          in if sync then run_callbacks w (callbacks e) s2 else (None, s2)))))
      | _ \<Rightarrow> (Some ValueError, s))"

text \<open>One iteration of the producer thread: take the oldest queued envelope, produce it.\<close>

definition kafka_producer_step :: "world \<Rightarrow> link \<Rightarrow> error option \<times> link" where
  "kafka_producer_step w s =
     (case output_messages s of
        [] \<Rightarrow> (None, s)
      | e # queue \<Rightarrow> produce w (PElectron e) None (s\<lparr>output_messages := queue\<rparr>))"

text \<open>
  The producer thread runs under \<open>_thread_target\<close>, which answers an exception that
  leaves its target with \<open>suicide\<close>.
\<close>

definition thread_target :: "error option \<times> link \<Rightarrow> link" where
  "thread_target r =
     (case r of
        (None, s) \<Rightarrow> s
      | (Some err, s) \<Rightarrow> suicide (Some ''Exception during the execution of the target'') True s)"

subsection \<open>The transform dispatcher: \<open>_transform\<close>\<close>

text \<open>\<open>Electron(value=v, topic=t, unpack_if_string=u)\<close>, the other fields at their defaults.\<close>

definition new_electron :: "pyval \<Rightarrow> pyval \<Rightarrow> bool \<Rightarrow> electron" where
  "new_electron v t u = Electron PNone v t PNone u [] 0"

text \<open>
  A tuple returned by the user's transform holds the result, the target of the user
  callback and its arguments; an empty tuple raises at \<open>transform_result[0]\<close>.
\<close>

fun unpack_result :: "pyval \<Rightarrow> callback \<Rightarrow> error + pyval \<times> callback" where
  "unpack_result (PTuple []) cb = Inl IndexError"
| "unpack_result (PTuple [electrons]) cb = Inr (electrons, cb)"
| "unpack_result (PTuple [electrons, t]) cb = Inr (electrons, set_target t cb)"
| "unpack_result (PTuple (electrons # t # PList a # rest)) cb =
     Inr (electrons, set_args (PList a) (set_target t cb))"
| "unpack_result (PTuple (electrons # t # PDict k # rest)) cb =
     Inr (electrons, set_kwargs (PDict k) (set_target t cb))"
| "unpack_result (PTuple (electrons # t # other # rest)) cb =
     Inr (electrons, set_target t cb)"
| "unpack_result transform_result cb = Inr (transform_result, cb)"

definition as_electron :: "pyval \<Rightarrow> electron" where
  "as_electron x = (case x of PElectron e \<Rightarrow> e | _ \<Rightarrow> new_electron x PNone True)"

definition to_electrons :: "pyval \<Rightarrow> electron list" where
  "to_electrons electrons =
     (case electrons of
        PNone \<Rightarrow> []
      | PList xs \<Rightarrow> map as_electron xs
      | PElectron e \<Rightarrow> [e]
      | _ \<Rightarrow> [new_electron electrons PNone False])"

text \<open>
  The block under \<open>if electrons:\<close>: the callbacks of the last envelope are replaced by the
  commit callback, if present, followed by the user callback, if present. Envelopes are
  values here: a list that holds the same \<open>Electron\<close> object twice is not told apart from
  one that holds two equal envelopes.
\<close>

definition attach_callbacks :: "callback \<Rightarrow> callback \<Rightarrow> electron list \<Rightarrow> electron list" where
  "attach_callbacks commit_kafka_message_callback transform_callback electrons =
     butlast electrons @
     [set_callbacks
        ((if callback_truthy commit_kafka_message_callback
          then [commit_kafka_message_callback] else []) @
         (if callback_truthy transform_callback then [transform_callback] else []))
        (last electrons)]"

text \<open>
  \<open>_transform\<close>, given what the user's transform did on the envelope. When the transform
  raises, \<open>suicide\<close> is called and the read of the unassigned \<open>transform_result\<close> raises.
\<close>

definition transform ::
  "world \<Rightarrow> outcome \<Rightarrow> callback \<Rightarrow> callback \<Rightarrow> link \<Rightarrow> error option \<times> link" where
  "transform w transform_outcome commit_kafka_message_callback transform_callback s =
     (case transform_outcome of
        Raises \<Rightarrow>
          (Some UnboundLocalError,
           suicide (Some ''exception during the execution of transform'') True s)
      | Returns transform_result \<Rightarrow>
          (let s1 = s\<lparr>logs := logs s @ [Log DEBUG ''electron transformed'']\<rparr>
           in case unpack_result transform_result transform_callback of
                Inl err \<Rightarrow> (Some err, s1)
              | Inr (electrons, transform_callback') \<Rightarrow>
                  (let real_electrons = to_electrons electrons
                   in if real_electrons \<noteq> [] then
                        (None, s1\<lparr>output_messages := output_messages s1 @
                                    attach_callbacks commit_kafka_message_callback
                                      transform_callback' real_electrons\<rparr>)
                      else if synchronous s1 \<and> callback_truthy commit_kafka_message_callback
                      then run_callbacks w [commit_kafka_message_callback] s1
                      else (None, s1))))"

subsection \<open>Sending from user code: \<open>send\<close>\<close>

text \<open>
  The second branch of \<open>send\<close> is guarded by \<open>type(output_content != list)\<close>: the
  comparison of the content with the class \<open>list\<close> is evaluated first, and \<open>type\<close> is
  applied to its result. No value of the model is the class \<open>list\<close> itself, so the
  comparison gives \<open>True\<close>; its type is the class \<open>bool\<close>, and a class object is true
  in a condition. (An object whose own comparison method raises is outside the model.)
\<close>

datatype py_class = NoneType | Bool_class | Int_class | Str_class | Bytes_class | List_class
  | Tuple_class | Dict_class | Object_class | Electron_class

fun type_of :: "pyval \<Rightarrow> py_class" where
  "type_of PNone = NoneType"
| "type_of (PBool b) = Bool_class"
| "type_of (PInt n) = Int_class"
| "type_of (PStr s) = Str_class"
| "type_of (PBytes b) = Bytes_class"
| "type_of (PList xs) = List_class"
| "type_of (PTuple xs) = Tuple_class"
| "type_of (PDict kvs) = Dict_class"
| "type_of (PObj n) = Object_class"
| "type_of (PElectron e) = Electron_class"

definition ne_class :: "pyval \<Rightarrow> py_class \<Rightarrow> pyval" where
  "ne_class v c = PBool True"

definition class_truthy :: "py_class \<Rightarrow> bool" where
  "class_truthy c = True"

definition send_guard :: "pyval \<Rightarrow> bool" where
  "send_guard output_content = class_truthy (type_of (ne_class output_content List_class))"

text \<open>The end of \<open>send\<close>, from \<open>if callback is not None\<close> on, once \<open>electron\<close> is bound.\<close>

definition send_electron ::
  "world \<Rightarrow> electron \<Rightarrow> callback option \<Rightarrow> callback list option \<Rightarrow> bool option \<Rightarrow> link \<Rightarrow>
   error option \<times> link" where
  "send_electron w electron callback_arg callbacks_arg synchronous_arg s =
     (let callbacks1 = (case callback_arg of None \<Rightarrow> callbacks_arg | Some c \<Rightarrow> Some [c]);
          electron1 = (case callbacks1 of None \<Rightarrow> electron | Some cs \<Rightarrow> set_callbacks cs electron);
          sync = (case synchronous_arg of None \<Rightarrow> synchronous s | Some b \<Rightarrow> b)
      in if sync then produce w (PElectron electron1) (Some True) s
         else (None, s\<lparr>output_messages := output_messages s @ [electron1]\<rparr>))"

text \<open>
  \<open>send\<close>. Where no branch binds \<open>electron\<close>, the first use of the variable raises
  \<open>UnboundLocalError\<close>; this is also how the per-item branch ends, after its loop.
\<close>

fun send ::
  "world \<Rightarrow> pyval \<Rightarrow> pyval \<Rightarrow> callback option \<Rightarrow> callback list option \<Rightarrow> bool option \<Rightarrow> link \<Rightarrow>
   error option \<times> link"
and send_items :: "world \<Rightarrow> pyval list \<Rightarrow> pyval \<Rightarrow> link \<Rightarrow> error option \<times> link" where
  "send w (PElectron e) topic_arg callback_arg callbacks_arg synchronous_arg s =
     send_electron w (if truthy topic_arg then set_topic topic_arg e else e)
       callback_arg callbacks_arg synchronous_arg s"
| "send w (PList output_content) topic_arg callback_arg callbacks_arg synchronous_arg s =
     (if send_guard (PList output_content) then
        send_electron w (new_electron (PList output_content) topic_arg True)
          callback_arg callbacks_arg synchronous_arg s
      else
        (case send_items w output_content topic_arg s of
           (Some err, s1) \<Rightarrow> (Some err, s1)
         | (None, s1) \<Rightarrow> (Some UnboundLocalError, s1)))"
| "send w output_content topic_arg callback_arg callbacks_arg synchronous_arg s =
     (if send_guard output_content then
        send_electron w (new_electron output_content topic_arg True)
          callback_arg callbacks_arg synchronous_arg s
      else (Some UnboundLocalError, s))"
| "send_items w [] topic_arg s = (None, s)"
| "send_items w (item # items) topic_arg s =
     (case send w item topic_arg None None None s of
        (Some err, s1) \<Rightarrow> (Some err, s1)
      | (None, s1) \<Rightarrow> send_items w items topic_arg s1)"

subsection \<open>Remote procedure calls: \<open>_kafka_rpc_call\<close>, \<open>_jsonrpc_call\<close>, \<open>_rpc_request_monitor\<close>\<close>

text \<open>
  Modelled from the spec: the error codes of the class \<open>JsonRPC\<close> (catenae/json_rpc.py is
  not part of the sources at hand) are those of JSON-RPC 2.0.
\<close>

definition METHOD_NOT_FOUND :: int where
  "METHOD_NOT_FOUND = - 32601"

definition INTERNAL_ERROR :: int where
  "INTERNAL_ERROR = - 32603"

definition rpc_enabled_method :: "link \<Rightarrow> py_str \<Rightarrow> bool" where
  "rpc_enabled_method s method \<longleftrightarrow> method \<in> rpc_enabled_methods s"

text \<open>\<open>d[k]\<close>, \<open>k in d\<close> and \<open>d.update({k: v})\<close> on a value that should be a dictionary.\<close>

fun dict_get :: "pyval \<Rightarrow> pyval \<Rightarrow> error + pyval" where
  "dict_get (PDict kvs) k = (case map_of kvs k of None \<Rightarrow> Inl KeyError | Some v \<Rightarrow> Inr v)"
| "dict_get d k = Inl TypeError"

fun dict_has :: "pyval \<Rightarrow> pyval \<Rightarrow> bool" where
  "dict_has (PDict kvs) k = (map_of kvs k \<noteq> None)"
| "dict_has d k = False"

fun dict_update :: "pyval \<Rightarrow> pyval \<Rightarrow> pyval \<Rightarrow> error + pyval" where
  "dict_update (PDict kvs) k v = Inr (PDict (AList.update k v kvs))"
| "dict_update d k v = Inl AttributeError"

definition then_do :: "error + 'a \<Rightarrow> ('a \<Rightarrow> error + 'b) \<Rightarrow> error + 'b" where
  "then_do r f = (case r of Inl err \<Rightarrow> Inl err | Inr x \<Rightarrow> f x)"

text \<open>
  The body of the \<open>try\<close> block of \<open>_kafka_rpc_call\<close> up to the call of the handler: the
  context with the topic added (the log line reads its uid and group), then the
  arguments of the call.
\<close>

definition rpc_context :: "electron \<Rightarrow> error + pyval" where
  "rpc_context e =
     then_do (dict_get (value' e) (PStr (str_of ''context''))) (\<lambda>context.
     then_do (dict_update context (PStr (str_of ''topic'')) (previous_topic e)) (\<lambda>context1.
     then_do (dict_get context1 (PStr (str_of ''uid''))) (\<lambda>_.
     then_do (dict_get context1 (PStr (str_of ''group''))) (\<lambda>_.
     Inr context1))))"

definition rpc_invocation :: "electron \<Rightarrow> py_str \<Rightarrow> pyval \<Rightarrow> error + invocation" where
  "rpc_invocation e method context =
     then_do (dict_get (value' e) (PStr (str_of ''kwargs''))) (\<lambda>kw.
       if truthy kw then
         then_do (dict_update kw (PStr (str_of ''context'')) context) (\<lambda>kw1.
         Inr (CallKwargs method kw1))
       else
         then_do (dict_get (value' e) (PStr (str_of ''args''))) (\<lambda>a.
         Inr (CallArgs method
                (if \<not> truthy a then [context]
                 else case a of PList xs \<Rightarrow> context # xs | _ \<Rightarrow> [context, a]))))"

text \<open>
  The call \<open>getattr(self, method)(**kwargs)\<close> needs a dictionary with strings as keys:
  with anything else it raises \<open>TypeError\<close> before the handler is entered. A call that
  enters the handler is recorded, and its outcome is the world's.
\<close>

fun is_str :: "pyval \<Rightarrow> bool" where
  "is_str (PStr k) = True"
| "is_str v = False"

fun call_enters :: "invocation \<Rightarrow> bool" where
  "call_enters (CallArgs method xs) = True"
| "call_enters (CallKwargs method (PDict kvs)) = (\<forall>k \<in> set (map fst kvs). is_str k)"
| "call_enters (CallKwargs method kw) = False"

definition invoke :: "world \<Rightarrow> invocation \<Rightarrow> link \<Rightarrow> outcome \<times> link" where
  "invoke w call s =
     (if call_enters call then (handler w call, s\<lparr>invoked := invoked s @ [call]\<rparr>)
      else (Raises, s))"

definition rpc_try_block :: "world \<Rightarrow> electron \<Rightarrow> py_str \<Rightarrow> link \<Rightarrow> link" where
  "rpc_try_block w e method s =
     (let failed = (\<lambda>s'. s'\<lparr>logs := logs s' @ [Log EXCEPTION ''error when invoking the method remotely'']\<rparr>)
      in case rpc_context e of
           Inl err \<Rightarrow> failed s
         | Inr context \<Rightarrow>
             (let s1 = s\<lparr>logs := logs s @ [Log DEBUG ''RPC invocation'']\<rparr>
              in case rpc_invocation e method context of
                   Inl err \<Rightarrow> failed s1
                 | Inr call \<Rightarrow>
                     (case invoke w call s1 of
                        (Raises, s2) \<Rightarrow> failed s2
                      | (Returns r, s2) \<Rightarrow> s2)))"

text \<open>
  \<open>_kafka_rpc_call\<close>, the bus path. A method name that is not hashable cannot be
  looked up in the set of enabled methods (\<open>TypeError\<close>); any other name that is not a
  string is in no registry.
\<close>

definition kafka_rpc_call :: "world \<Rightarrow> electron \<Rightarrow> callback \<Rightarrow> link \<Rightarrow> error option \<times> link" where
  "kafka_rpc_call w e commit_kafka_message_callback s =
     (let not_enabled = (None, s\<lparr>logs := logs s @ [Log DEBUG ''method cannot be called'']\<rparr>)
      in case dict_get (value' e) (PStr (str_of ''method'')) of
           Inl err \<Rightarrow> (Some err, s)
         | Inr (PStr method) \<Rightarrow>
             if \<not> rpc_enabled_method s method then not_enabled
             else if \<not> dict_has (value' e) (PStr (str_of ''method'')) then
               (None, s\<lparr>logs := logs s @ [Log ERROR ''invalid RPC invocation'']\<rparr>)
             else
               (let s1 = rpc_try_block w e method s
                in if synchronous s1 then run_callbacks w [commit_kafka_message_callback] s1
                   else (None, s1))
         | Inr other \<Rightarrow> if hashable other then not_enabled else (Some TypeError, s))"

text \<open>\<open>_jsonrpc_call\<close>, the direct path: the result, or the exception raised.\<close>

definition jsonrpc_call :: "world \<Rightarrow> py_str \<Rightarrow> pyval \<Rightarrow> link \<Rightarrow> (error + pyval) \<times> link" where
  "jsonrpc_call w method kwargs_arg s =
     (if \<not> rpc_enabled_method s method then
        (Inl MethodNotFoundError, s\<lparr>logs := logs s @ [Log DEBUG ''method cannot be called'']\<rparr>)
      else
        (case invoke w (CallKwargs method (if kwargs_arg = PNone then PDict [] else kwargs_arg)) s of
           (Returns r, s1) \<Rightarrow> (Inr r, s1)
         | (Raises, s1) \<Rightarrow> (Inl InternalError, s1\<lparr>logs := logs s1 @ [Log EXCEPTION []]\<rparr>)))"

text \<open>
  One request handled by \<open>_rpc_request_monitor\<close>: the pair read from the pipe says
  whether the request is a notification; the reply \<open>(error_code, result)\<close> is sent back
  unless it is one.
\<close>

definition rpc_request_monitor_step ::
  "world \<Rightarrow> bool \<Rightarrow> py_str \<times> pyval \<Rightarrow> link \<Rightarrow> (int option \<times> pyval) option \<times> link" where
  "rpc_request_monitor_step w is_notification request s =
     (case jsonrpc_call w (fst request) (snd request) s of
        (r, s1) \<Rightarrow>
          (let reply = (case r of
                          Inr v \<Rightarrow> (None, v)
                        | Inl MethodNotFoundError \<Rightarrow> (Some METHOD_NOT_FOUND, PNone)
                        | Inl InternalError \<Rightarrow> (Some INTERNAL_ERROR, PNone)
                        | Inl err \<Rightarrow> (None, PNone))
           in (if is_notification then None else Some reply, s1)))"

subsection \<open>The peer registry: \<open>add_to_store\<close>\<close>

text \<open>
  The registry has two dictionaries: \<open>by_uid\<close> from a peer's uid to its record, and
  \<open>by_group\<close> from a group to the dictionary of the peers of that group. The uid and the
  group are what the caller put in the context of the call, values of any type.
\<close>

datatype instance_info =
  InstanceInfo (info_host: pyval) (info_port: pyval) (info_scheme: pyval)
               (info_uid: pyval) (info_group: pyval)

record store =
  by_uid :: "pyval \<rightharpoonup> instance_info"
  by_group :: "pyval \<rightharpoonup> (pyval \<rightharpoonup> instance_info)"

definition empty_store :: store where
  "empty_store = \<lparr>by_uid = Map.empty, by_group = Map.empty\<rparr>"

text \<open>The two environment variables read by \<open>_it_is_me\<close>.\<close>

record environ =
  JSONRPC_HOST :: py_str
  JSONRPC_PORT :: py_str

definition it_is_me :: "environ \<Rightarrow> pyval \<Rightarrow> pyval \<Rightarrow> bool" where
  "it_is_me env host_arg port_arg \<longleftrightarrow>
     host_arg = PStr (JSONRPC_HOST env) \<and> port_arg = PStr (JSONRPC_PORT env)"

text \<open>
  One announcement: the context of the call, the endpoint, and what the probe
  \<open>_is_instance_available\<close> gives for this endpoint at the time of the call: the value it
  returns (\<open>False\<close> when the peer cannot be reached) or the exception raised while
  reading the answer.
\<close>

datatype announce =
  Announce (call_context: pyval) (host: pyval) (port: pyval) (scheme: pyval)
           (available: "error + pyval")

text \<open>
  \<open>add_to_store\<close>, statement by statement: the two early returns, the record built from
  \<open>context['uid']\<close> and \<open>context['group']\<close>, the write to \<open>by_uid\<close>, then the test
  \<open>context['group'] in by_group\<close> and the write to \<open>by_group\<close>. A uid that is not hashable
  raises at the first write; a group that is not hashable raises at the test, when the
  first write has been done.
\<close>

definition add_to_store :: "environ \<Rightarrow> announce \<Rightarrow> store \<Rightarrow> error option \<times> store" where
  "add_to_store env a st =
     (if it_is_me env (host a) (port a) then (None, st)
      else case available a of
             Inl err \<Rightarrow> (Some err, st)
           | Inr r \<Rightarrow>
               if \<not> truthy r then (None, st)
               else
                 (case dict_get (call_context a) (PStr (str_of ''uid'')) of
                    Inl err \<Rightarrow> (Some err, st)
                  | Inr u \<Rightarrow>
                      (case dict_get (call_context a) (PStr (str_of ''group'')) of
                         Inl err \<Rightarrow> (Some err, st)
                       | Inr g \<Rightarrow>
                           (let instance_info = InstanceInfo (host a) (port a) (scheme a) u g
                            in if \<not> hashable u then (Some TypeError, st)
                               else
                                 (let st1 = st\<lparr>by_uid := (by_uid st)(dict_key u \<mapsto> instance_info)\<rparr>
                                  in if \<not> hashable g then (Some TypeError, st1)
                                     else
                                       (let members = (case by_group st1 (dict_key g) of
                                                         None \<Rightarrow> Map.empty | Some m \<Rightarrow> m)
                                        in (None,
                                            st1\<lparr>by_group := (by_group st1)(dict_key g \<mapsto>
                                                   members(dict_key u \<mapsto> instance_info))\<rparr>)))))))"

text \<open>
  What a call announces: the uid and the group read from the context, when the call gets
  past the two early returns and the context holds both. A call registers its peer when
  both are hashable; it stops half way when the uid is hashable and the group is not.
\<close>

definition announced :: "environ \<Rightarrow> announce \<Rightarrow> (pyval \<times> pyval) option" where
  "announced env a =
     (if it_is_me env (host a) (port a) then None
      else case available a of
             Inl err \<Rightarrow> None
           | Inr r \<Rightarrow>
               if \<not> truthy r then None
               else
                 (case dict_get (call_context a) (PStr (str_of ''uid'')) of
                    Inl err \<Rightarrow> None
                  | Inr u \<Rightarrow>
                      (case dict_get (call_context a) (PStr (str_of ''group'')) of
                         Inl err \<Rightarrow> None
                       | Inr g \<Rightarrow> Some (u, g))))"

definition registers :: "environ \<Rightarrow> announce \<Rightarrow> bool" where
  "registers env a \<longleftrightarrow>
     (case announced env a of None \<Rightarrow> False | Some (u, g) \<Rightarrow> hashable u \<and> hashable g)"

definition stops_half_way :: "environ \<Rightarrow> announce \<Rightarrow> bool" where
  "stops_half_way env a \<longleftrightarrow>
     (case announced env a of None \<Rightarrow> False | Some (u, g) \<Rightarrow> hashable u \<and> \<not> hashable g)"

definition uid_key :: "announce \<Rightarrow> pyval" where
  "uid_key a =
     (case dict_get (call_context a) (PStr (str_of ''uid'')) of
        Inl err \<Rightarrow> PNone | Inr u \<Rightarrow> dict_key u)"

definition group_key :: "announce \<Rightarrow> pyval" where
  "group_key a =
     (case dict_get (call_context a) (PStr (str_of ''group'')) of
        Inl err \<Rightarrow> PNone | Inr g \<Rightarrow> dict_key g)"

text \<open>
  A sequence of calls. Each is the handler of one RPC; an exception of a handler is caught
  and logged by the caller, and the next call runs on the store as the failed one left it.
\<close>

fun add_all :: "environ \<Rightarrow> announce list \<Rightarrow> store \<Rightarrow> store" where
  "add_all env [] st = st"
| "add_all env (a # calls) st = add_all env calls (snd (add_to_store env a st))"

text \<open>The symmetry of the two indices.\<close>

definition reachable_by_group :: "store \<Rightarrow> pyval \<Rightarrow> bool" where
  "reachable_by_group st u \<longleftrightarrow> (\<exists>g m. by_group st g = Some m \<and> u \<in> dom m)"

subsection \<open>Committing a source message: \<open>_commit_kafka_message\<close>\<close>

text \<open>
  \<open>consumer.commit\<close> belongs to the bus client. Its successive results are given as a list
  of outcomes, \<open>True\<close> for a call that returns and \<open>False\<close> for one that raises. The
  \<open>while not commited\<close> loop consumes one outcome per iteration. The result \<open>None\<close> says
  that every outcome of the list was a failure: the loop is still running and the function
  has not returned. The state of the loop is the local variable \<open>attempts\<close>, the number of
  calls of \<open>consumer.commit\<close> made so far, and the log.
\<close>

record commit_state =
  attempts :: nat
  commit_calls :: nat
  commit_log :: "log_entry list"

fun commit_loop :: "bool list \<Rightarrow> commit_state \<Rightarrow> commit_state option" where
  "commit_loop [] st = None"
| "commit_loop (ok # outcomes) st =
     (let st1 = (if attempts st > 1
                 then st\<lparr>commit_log := commit_log st @ [Log WARN ''trying to commit the message (attempt)'']\<rparr>
                 else st);
          st2 = st1\<lparr>commit_calls := commit_calls st1 + 1\<rparr>
      in if ok
         then Some (st2\<lparr>attempts := attempts st2 + 1\<rparr>)
         else commit_loop outcomes
                (st2\<lparr>commit_log := commit_log st2 @ [Log EXCEPTION ''exception when trying to commit the message'']\<rparr>))"

definition commit_kafka_message :: "bool list \<Rightarrow> log_entry list \<Rightarrow> commit_state option" where
  "commit_kafka_message outcomes lg =
     (case commit_loop outcomes
             \<lparr>attempts = 0, commit_calls = 0,
              commit_log = lg @ [Log DEBUG ''trying to commit the message (attempt)'']\<rparr> of
        None \<Rightarrow> None
      | Some st \<Rightarrow> Some (st\<lparr>commit_log := commit_log st @ [Log DEBUG ''message commited'']\<rparr>))"

subsection \<open>Topic time budgets: \<open>_get_index_assignment\<close>, \<open>_set_input_topic_assignments\<close>\<close>

text \<open>
  Python floats are modelled as real numbers: \<open>math.pow\<close> is the power, and no rounding
  or overflow takes place.

  The loop of \<open>_get_index_assignment\<close> finds the position of the topic with the identity
  test \<open>index is reverse_index\<close>. Two \<open>int\<close> objects of equal value are the same object
  only where the interpreter shares them: CPython does so for the integers from \<open>-5\<close> to
  \<open>256\<close>, and makes a new object for every other result of an arithmetic operation or of
  \<open>range\<close>. When the test never succeeds, \<open>index_assignment\<close> is not bound and the
  \<open>return\<close> statement raises \<open>UnboundLocalError\<close>.
\<close>

definition is_same_int :: "int \<Rightarrow> int \<Rightarrow> bool" where
  "is_same_int a b \<longleftrightarrow> a = b \<and> - 5 \<le> a \<and> a \<le> 256"

text \<open>
  One iteration of the \<open>for\<close> loop, on the pair of \<open>index_assignment\<close> (\<open>None\<close> while
  unbound) and \<open>aggregated_value\<close>.
\<close>

definition index_step :: "real \<Rightarrow> int \<Rightarrow> nat \<Rightarrow> real option \<times> real \<Rightarrow> real option \<times> real" where
  "index_step base reverse_index index acc =
     (let v = base ^ index
      in ((if is_same_int (int index) reverse_index then Some v else fst acc), snd acc + v))"

definition get_index_assignment :: "real \<Rightarrow> nat \<Rightarrow> nat \<Rightarrow> real \<Rightarrow> error + real" where
  "get_index_assignment window_size index elements_no base =
     (let reverse_index = int elements_no - int index - 1;
          (index_assignment, aggregated_value) =
             fold (index_step base reverse_index) [0..<elements_no] (None, 0)
      in case index_assignment of
           None \<Rightarrow> Inl UnboundLocalError
         | Some v \<Rightarrow> if aggregated_value = 0 then Inl ZeroDivisionError
                     else Inr ((v / aggregated_value) * window_size))"

text \<open>
  The assignments are a dictionary from a topic to its budget in seconds; parity mode
  stores the single entry \<open>{-1: -1}\<close>. The dictionary keeps the order of insertion, and
  an assignment to a key already present keeps its place.
\<close>

datatype assignment_key = Minus_one | Topic py_str

type_synonym assignments = "(assignment_key \<times> real) list"

fun assign_topics :: "nat \<Rightarrow> nat \<Rightarrow> py_str list \<Rightarrow> assignments \<Rightarrow> error + assignments" where
  "assign_topics topics_no index [] asg = Inr asg"
| "assign_topics topics_no index (t # topics) asg =
     (case get_index_assignment 900 index topics_no 1.7 of
        Inl err \<Rightarrow> Inl err
      | Inr topic_assingment \<Rightarrow>
          assign_topics topics_no (index + 1) topics
            (AList.update (Topic t) topic_assingment asg))"

definition set_input_topic_assignments ::
  "string \<Rightarrow> py_str list \<Rightarrow> assignments \<Rightarrow> error + assignments" where
  "set_input_topic_assignments input_mode input_topics old =
     (if input_mode = ''parity'' then Inr [(Minus_one, - 1)]
      else if input_mode = ''exp'' then
        (case input_topics of
           [] \<Rightarrow> Inl IndexError
         | first # _ \<Rightarrow>
             assign_topics (length input_topics) 0 input_topics
               (if length first = 1 then [(Topic first, - 1)] else []))
      else Inr old)"

subsection \<open>The main consumer: \<open>in_time\<close> and the handling of a polled message\<close>

text \<open>
  \<open>utils.get_timestamp_ms()\<close> reads the clock, in milliseconds; the reading is the
  argument \<open>now\<close>. \<open>slice_open\<close> is the condition of the inner \<open>while\<close> loop of
  \<open>_kafka_consumer_main\<close>.
\<close>

definition in_time :: "real \<Rightarrow> real \<Rightarrow> real \<Rightarrow> bool" where
  "in_time now start_time assigned_time \<longleftrightarrow> start_time - now < assigned_time"

definition slice_open :: "real \<Rightarrow> real \<Rightarrow> real \<Rightarrow> bool \<Rightarrow> bool" where
  "slice_open now start_time assigned_time stopping \<longleftrightarrow>
     (assigned_time = - 1 \<or> in_time now start_time assigned_time) \<and> \<not> stopping"

definition break_consumer_loop :: "string \<Rightarrow> py_str list \<Rightarrow> bool" where
  "break_consumer_loop input_mode subscription \<longleftrightarrow>
     length subscription > 1 \<and> input_mode \<noteq> ''parity''"

text \<open>
  The subscription of a slice; an unknown mode calls \<open>suicide\<close> and leaves \<open>subscription\<close>
  unbound (\<open>None\<close>).
\<close>

definition subscription_of :: "string \<Rightarrow> py_str list \<Rightarrow> py_str \<Rightarrow> py_str list option" where
  "subscription_of input_mode input_topics t =
     (if input_mode = ''exp'' then Some [t]
      else if input_mode = ''parity'' then Some input_topics
      else None)"

text \<open>
  An item of the work queue \<open>_input_messages\<close> is a message alone, or the tuple of the
  message with the commit function and its arguments. \<open>Continue\<close> and \<open>Break\<close> say how an
  iteration of the loop of a slice ends.
\<close>

datatype 'm queue_item = Plain 'm | With_commit 'm

datatype control = Continue | Break

text \<open>
  Modelled from the spec: the class \<open>LinkQueue\<close> (catenae/custom_queue.py) is not part of
  the sources at hand. Its counter \<open>messages_left\<close> is decremented by
  \<open>decrement_messages_left\<close> and set back to a value chosen by the implementation,
  \<open>minimum_messages\<close>, by \<open>reset_messages_left\<close>. The state of the consumer loop is the
  buffer of the current topic, the count kept from the previous message, and the work
  queue with its counter.
\<close>

record 'm consumer =
  message_buffer :: "'m list"
  prev_queued_messages :: int
  messages_left :: int
  input_messages :: "'m queue_item list"
  consumer_logs :: "log_entry list"

text \<open>The test of the penalization rule, on the two counts.\<close>

definition penalized :: "string \<Rightarrow> py_str list \<Rightarrow> int \<Rightarrow> int \<Rightarrow> bool" where
  "penalized input_mode subscription current_queued_messages prev \<longleftrightarrow>
     \<not> break_consumer_loop input_mode subscription
     \<and> current_queued_messages > 1
     \<and> current_queued_messages > prev - 2"

text \<open>
  The \<open>else\<close> branch of the loop body: a message without error has been polled.
  \<open>Continue\<close> goes on with the loop (by \<open>continue\<close> or by reaching the end of the body),
  \<open>Break\<close> leaves the slice.
\<close>

definition consume_message ::
  "bool \<Rightarrow> string \<Rightarrow> py_str list \<Rightarrow> int \<Rightarrow> 'm \<Rightarrow> 'm consumer \<Rightarrow> control \<times> 'm consumer" where
  "consume_message synchronous_mode input_mode subscription minimum_messages m c =
     (if synchronous_mode then
        (Continue, c\<lparr>input_messages := input_messages c @ [With_commit m]\<rparr>)
      else if length subscription = 1 \<or> input_mode = ''parity'' then
        (Continue, c\<lparr>input_messages := input_messages c @ [Plain m]\<rparr>)
      else
        (let buffer1 = message_buffer c @ [m];
             current_queued_messages = int (length buffer1);
             left1 = messages_left c - 1;
             c1 = (if left1 < 1
                   then c\<lparr>input_messages := input_messages c @ map Plain buffer1,
                          message_buffer := [], messages_left := minimum_messages\<rparr>
                   else c\<lparr>message_buffer := buffer1, messages_left := left1\<rparr>)
         in if penalized input_mode subscription current_queued_messages (prev_queued_messages c)
            then (Break, c1\<lparr>consumer_logs := consumer_logs c1 @ [Log INFO ''penalized topic'']\<rparr>)
            else (Continue, c1\<lparr>prev_queued_messages := current_queued_messages\<rparr>)))"

text \<open>
  What \<open>consumer.poll\<close> returned: nothing (or a message with neither key nor value), a
  message carrying an error (with the flag: is it the end of a partition), or a message.
\<close>

datatype 'm polled = Nothing | Failed bool | Received 'm

definition handle_poll ::
  "bool \<Rightarrow> string \<Rightarrow> py_str list \<Rightarrow> int \<Rightarrow> 'm polled \<Rightarrow> 'm consumer \<Rightarrow> control \<times> 'm consumer" where
  "handle_poll synchronous_mode input_mode subscription minimum_messages p c =
     (case p of
        Nothing \<Rightarrow> (if \<not> break_consumer_loop input_mode subscription then Continue else Break, c)
      | Failed partition_eof \<Rightarrow>
          (Continue,
           if partition_eof then c
           else c\<lparr>consumer_logs := consumer_logs c @ [Log ERROR ''message error'']\<rparr>)
      | Received m \<Rightarrow>
          consume_message synchronous_mode input_mode subscription minimum_messages m c)"

text \<open>
  The iterations of the loop of one slice on what successive polls return, as long as
  the loop goes on. The loop variables start from the values the code gives them:
  \<open>prev_queued_messages = 0\<close> before the first slice, \<open>message_buffer = []\<close> at the
  start of a slice.
\<close>

fun slice_run ::
  "bool \<Rightarrow> string \<Rightarrow> py_str list \<Rightarrow> int \<Rightarrow> 'm polled list \<Rightarrow> 'm consumer \<Rightarrow> control \<times> 'm consumer" where
  "slice_run synchronous_mode input_mode subscription minimum_messages [] c = (Continue, c)"
| "slice_run synchronous_mode input_mode subscription minimum_messages (p # polls) c =
     (case handle_poll synchronous_mode input_mode subscription minimum_messages p c of
        (Break, c1) \<Rightarrow> (Break, c1)
      | (Continue, c1) \<Rightarrow>
          slice_run synchronous_mode input_mode subscription minimum_messages polls c1)"


subsection \<open>A sample world, link and callbacks\<close>

text \<open>
  Concrete inputs on which the model is evaluated: a world in which nothing fails, a
  synchronous link with one output topic, the two callbacks \<open>_input_handler\<close> builds for
  a message of the main consumer (the commit callback with its target and arguments,
  the user callback still empty) and an envelope.
\<close>

definition sample_world :: world where
  "sample_world =
     \<lparr>dumps = (\<lambda>layout k. Inr [0x80]), dumps_sendable = (\<lambda>e. Inr [0x80]),
      producer_raises = (\<lambda>sync m. False), callback_raises = (\<lambda>c. False),
      handler = (\<lambda>call. Returns PNone)\<rparr>"

definition failing_world :: world where
  "failing_world = sample_world\<lparr>handler := (\<lambda>call. Raises)\<rparr>"

definition sample_link :: link where
  "sample_link =
     \<lparr>uid = str_of ''link'', synchronous = True, sequential = True,
      output_topics = [str_of ''out''], rpc_enabled_methods = {str_of ''available''},
      output_messages = [], produced = [], executed = [], invoked = [], logs = [],
      will_stop = False\<rparr>"

definition commit_callback :: callback where
  "commit_callback =
     Callback (PObj ''_commit_kafka_message'') (PList [PObj ''consumer'', PObj ''message''])
       PNone COMMIT_KAFKA_MESSAGE"

definition user_callback :: callback where
  "user_callback = Callback PNone PNone PNone USER"

definition sample_electron :: electron where
  "sample_electron = Electron PNone (PStr (str_of ''a'')) PNone PNone False [] 0"

definition sample_environ :: environ where
  "sample_environ = \<lparr>JSONRPC_HOST = str_of ''10.0.0.1'', JSONRPC_PORT = str_of ''9494''\<rparr>"

text \<open>
  Two announcements of reachable peers, and one whose context has a list as its group,
  as a JSON array in the parameters of a call gives.
\<close>

definition context_of :: "string \<Rightarrow> pyval \<Rightarrow> pyval" where
  "context_of u g =
     PDict [(PStr (str_of ''uid''), PStr (str_of u)), (PStr (str_of ''group''), g)]"

definition sample_announces :: "announce list" where
  "sample_announces =
     [Announce (context_of ''a'' (PStr (str_of ''g''))) (PStr (str_of ''10.0.0.2''))
        (PStr (str_of ''9494'')) (PStr (str_of ''http'')) (Inr (PBool True)),
      Announce (context_of ''b'' (PStr (str_of ''g''))) (PStr (str_of ''10.0.0.3''))
        (PStr (str_of ''9494'')) (PStr (str_of ''http'')) (Inr (PBool True))]"

definition list_group_announce :: announce where
  "list_group_announce =
     Announce (context_of ''u1'' (PList [PStr (str_of ''g'')])) (PStr (str_of ''10.0.0.2''))
       (PStr (str_of ''9494'')) (PStr (str_of ''http'')) (Inr (PBool True))"

text \<open>
  A world whose \<open>pickle.dumps\<close> answers as CPython's does, with protocol 5, on the key
  \<open>('kkk', 'kkk')\<close>. In layout \<open>1\<close> the two items of the pair are one string object:
  the string is written once and then referred to. In any other layout they are two
  objects and the string is written twice.
\<close>

definition pair_key :: pyval where
  "pair_key = PTuple [PStr (str_of ''kkk''), PStr (str_of ''kkk'')]"

definition pickle_world :: world where
  "pickle_world =
     sample_world\<lparr>dumps := (\<lambda>layout k.
       if k = pair_key then
         (if layout = 1 then
            Inr [0x80, 0x05, 0x95, 0x0B, 0, 0, 0, 0, 0, 0, 0,
                 0x8C, 0x03, 0x6B, 0x6B, 0x6B, 0x94, 0x68, 0x00, 0x86, 0x94, 0x2E]
          else
            Inr [0x80, 0x05, 0x95, 0x0F, 0, 0, 0, 0, 0, 0, 0,
                 0x8C, 0x03, 0x6B, 0x6B, 0x6B, 0x94, 0x8C, 0x03, 0x6B, 0x6B, 0x6B, 0x94,
                 0x86, 0x94, 0x2E])
       else Inr [0x80])\<rparr>"

section \<open>Properties\<close>

subsection \<open>The producer and its callbacks\<close>

lemma run_callbacks_None:
  "run_callbacks w cs s = (None, s') \<Longrightarrow> s' = s\<lparr>executed := executed s @ cs\<rparr>"
proof (induction cs arbitrary: s)
  case Nil
  then show ?case by simp
next
  case (Cons c cs)
  from Cons.prems have ok: "\<not> callback_raises w c"
    and run: "run_callbacks w cs (s\<lparr>executed := executed s @ [c]\<rparr>) = (None, s')"
    by (auto split: if_splits)
  from Cons.IH [OF run] show ?case by simp
qed

lemma run_callbacks_produced:
  "run_callbacks w cs s = (r, s') \<Longrightarrow> produced s' = produced s"
proof (induction cs arbitrary: s)
  case Nil
  then show ?case by simp
next
  case (Cons c cs)
  show ?case
  proof (cases "callback_raises w c")
    case True
    with Cons.prems show ?thesis by simp
  next
    case False
    with Cons.prems have "run_callbacks w cs (s\<lparr>executed := executed s @ [c]\<rparr>) = (r, s')"
      by simp
    from Cons.IH [OF this] show ?thesis by simp
  qed
qed

lemma attach_callbacks_last:
  "callbacks (last (attach_callbacks c u es)) =
     (if callback_truthy c then [c] else []) @ (if callback_truthy u then [u] else [])"
  by (simp add: attach_callbacks_def set_callbacks_def)

lemma suicide_fields:
  "produced (suicide m x s) = produced s" "executed (suicide m x s) = executed s"
  "will_stop (suicide m x s)" "output_messages (suicide m x s) = output_messages s"
  by (simp_all add: suicide_def Let_def)

lemma destination_fields:
  "destination s e = (r, s1) \<Longrightarrow> produced s1 = produced s \<and> executed s1 = executed s"
  by (auto simp: destination_def suicide_fields split: if_splits list.splits)

text \<open>
  What a call of \<open>_produce\<close> that hands a message to a producer has done: the key, the
  topic and the value of the message are those computed from the envelope, the producer
  is the one selected by the mode, and it did not raise.
\<close>

lemma produce_published:
  assumes run: "produce w (PElectron e) synchronous_arg s = (r, s')"
    and pub: "produced s' = produced s @ [(b, m)]"
  shows "partition_key w s e = Inr (msg_key m) \<and>
         fst (destination s e) = Inr (msg_topic m) \<and>
         serialize w (set_topic (msg_topic m) e) = Inr (msg_value m) \<and>
         b = (case synchronous_arg of None \<Rightarrow> synchronous s | Some x \<Rightarrow> x) \<and>
         \<not> producer_raises w b m \<and>
         (r = None \<and> b \<longrightarrow> executed s' = executed s @ callbacks e)"
proof -
  obtain d s1 where d: "destination s e = (d, s1)" by (cases "destination s e")
  from destination_fields [OF d]
  have s1: "produced s1 = produced s" "executed s1 = executed s" by simp_all
  have sy: "synchronous s1 = synchronous s"
    using d by (auto simp: destination_def suicide_def Let_def split: if_splits list.splits)
  from run pub obtain pk where pk: "partition_key w s e = Inr pk"
    by (cases "partition_key w s e") (auto simp: produce_def)
  from run pub pk d s1 obtain t where t: "d = Inr t"
    by (cases d) (auto simp: produce_def)
  from run pub pk d t s1 obtain v where v: "serialize w (set_topic t e) = Inr v"
    by (cases "serialize w (set_topic t e)") (auto simp: produce_def)
  define sync where "sync = (case synchronous_arg of None \<Rightarrow> synchronous s1 | Some b \<Rightarrow> b)"
  define m0 where "m0 = \<lparr>msg_topic = t, msg_key = pk, msg_value = v\<rparr>"
  define s2 where "s2 = submit w sync m0 s1"
  have "produce w (PElectron e) synchronous_arg s =
          (if sync then run_callbacks w (callbacks e) s2 else (None, s2))"
    unfolding produce_def sync_def m0_def s2_def Let_def by (simp add: pk d t v)
  with run have tail: "(if sync then run_callbacks w (callbacks e) s2 else (None, s2)) = (r, s')"
    by simp
  have p2: "produced s' = produced s2"
  proof (cases sync)
    case True
    with tail have "run_callbacks w (callbacks e) s2 = (r, s')" by simp
    then show ?thesis by (rule run_callbacks_produced)
  next
    case False
    with tail show ?thesis by simp
  qed
  have ok: "\<not> producer_raises w sync m0"
    using p2 pub s1 by (auto simp: s2_def submit_def suicide_fields)
  with p2 pub s1 have bm: "b = sync" "m = m0"
    by (simp_all add: s2_def submit_def)
  from ok have e2: "executed s2 = executed s" using s1 by (simp add: s2_def submit_def)
  have cb: "executed s' = executed s @ callbacks e" if "r = None" "b"
  proof -
    from that tail bm have "run_callbacks w (callbacks e) s2 = (None, s')" by simp
    from run_callbacks_None [OF this] e2 show ?thesis by simp
  qed
  have "b = (case synchronous_arg of None \<Rightarrow> synchronous s | Some x \<Rightarrow> x)"
    using bm sy by (cases synchronous_arg) (simp_all add: sync_def)
  with pk d t v ok bm cb show ?thesis by (simp add: m0_def)
qed

text \<open>
  C1 (as amended). In synchronous mode, once an envelope has been published without an
  exception leaving \<open>_produce\<close>, the callbacks that have run are the callbacks of the
  envelope, in list order. \<open>_transform\<close> puts the commit callback in front of the user
  callback: on the envelope that carries both, the commit callback is executed first and
  the user callback last.
\<close>

theorem sync_callbacks_commit_first:
  assumes run: "produce w (PElectron e) synchronous_arg s = (None, s')"
    and pub: "produced s' = produced s @ [(True, m)]"
  shows "executed s' = executed s @ callbacks e \<and>
         (\<forall>c u es. callback_truthy c \<and> callback_truthy u \<and> es \<noteq> [] \<and>
                    e = last (attach_callbacks c u es) \<longrightarrow>
                    executed s' = executed s @ [c, u])"
proof -
  from produce_published [OF run pub]
  have ex: "executed s' = executed s @ callbacks e" by simp
  then show ?thesis by (auto simp: attach_callbacks_last)
qed

theorem sync_callbacks_commit_first_witness:
  "executed (snd (produce sample_world
      (PElectron (last (attach_callbacks commit_callback
                          (set_target (PObj ''user_callback'') user_callback) [sample_electron])))
      None sample_link)) =
   [commit_callback, set_target (PObj ''user_callback'') user_callback]"
proof -
  let ?u = "set_target (PObj ''user_callback'') user_callback"
  let ?e = "last (attach_callbacks commit_callback ?u [sample_electron])"
  let ?r = "produce sample_world (PElectron ?e) None sample_link"
  let ?m = "\<lparr>msg_topic = PStr (str_of ''out''), msg_key = Some [0x6C, 0x69, 0x6E, 0x6B],
             msg_value = PBytes [0x80]\<rparr>"
  have ev: "fst ?r = None"
    "produced (snd ?r) = produced sample_link @ [(True, ?m)]"
    by (simp_all add: produce_def submit_def Let_def sample_world_def sample_link_def
          commit_callback_def user_callback_def sample_electron_def attach_callbacks_def
          set_callbacks_def set_target_def callback_truthy_def partition_key_def
          destination_def serialize_def set_topic_def str_of_def utf8_char_def)
  have run: "?r = (None, snd ?r)" using ev(1) by (simp add: prod_eq_iff)
  have tr: "callback_truthy commit_callback \<and> callback_truthy ?u"
    by (simp add: callback_truthy_def commit_callback_def set_target_def)
  have ex: "executed sample_link = []" by (simp add: sample_link_def)
  from sync_callbacks_commit_first [OF run ev(2)] tr ex show ?thesis by auto
qed

text \<open>
  C1 (as stated) fails. A synchronous link transforms a message of the main consumer;
  the user's transform returns an envelope together with the target of a user callback.
  The producer thread publishes the envelope and runs its callbacks: the commit callback
  first, the user callback last.
\<close>

theorem commit_callback_last_counterexample:
  "map kind (executed (snd (kafka_producer_step sample_world
      (snd (transform sample_world
              (Returns (PTuple [PElectron sample_electron, PObj ''user_callback'']))
              commit_callback user_callback sample_link))))) =
   [COMMIT_KAFKA_MESSAGE, USER]"
  by (simp add: kafka_producer_step_def transform_def produce_def submit_def Let_def
        sample_world_def sample_link_def commit_callback_def user_callback_def
        sample_electron_def to_electrons_def attach_callbacks_def set_callbacks_def
        set_target_def callback_truthy_def partition_key_def destination_def serialize_def
        set_topic_def str_of_def utf8_char_def)

lemma transform_queues_attached:
  assumes "unpack_result transform_result u = Inr (electrons, u')"
    and "to_electrons electrons \<noteq> []"
  shows "transform w (Returns transform_result) c u s =
           (None, s\<lparr>logs := logs s @ [Log DEBUG ''electron transformed''],
                    output_messages := output_messages s @
                      attach_callbacks c u' (to_electrons electrons)\<rparr>)"
  using assms by (simp add: transform_def Let_def)

lemma map_sum_Some_Inr:
  "map_sum id Some r = Inr k \<Longrightarrow> \<exists>bytes. r = Inr bytes \<and> k = Some bytes"
  by (cases r) auto

text \<open>
  C5 (as amended). The partition key of a published message: for a key that is a
  non-empty string, the UTF-8 encoding of the key; for any other key that Python takes
  as true, the bytes \<open>pickle.dumps\<close> returns for the key object, which follow the layout
  of the object and need not be the same for equal keys; for a key that is absent or
  that Python takes as false (\<open>None\<close>, the empty string, zero, an empty container), the
  UTF-8 encoding of the link's uid in sequential mode, and no key otherwise.
\<close>

theorem partition_key_observed:
  assumes run: "produce w (PElectron e) synchronous_arg s = (r, s')"
    and pub: "produced s' = produced s @ [(b, m)]"
  shows "(\<forall>k. key e = PStr k \<and> k \<noteq> [] \<longrightarrow>
            (\<exists>bytes. encode_utf8 k = Inr bytes \<and> msg_key m = Some bytes))
       \<and> (truthy (key e) \<and> (\<forall>k. key e \<noteq> PStr k) \<longrightarrow>
            (\<exists>bytes. dumps w (key_layout e) (key e) = Inr bytes \<and> msg_key m = Some bytes))
       \<and> (\<not> truthy (key e) \<and> sequential s \<longrightarrow>
            (\<exists>bytes. encode_utf8 (uid s) = Inr bytes \<and> msg_key m = Some bytes))
       \<and> (\<not> truthy (key e) \<and> \<not> sequential s \<longrightarrow> msg_key m = None)"
proof -
  from produce_published [OF run pub]
  have pk: "partition_key w s e = Inr (msg_key m)" by simp
  have str: "\<exists>bytes. encode_utf8 k = Inr bytes \<and> msg_key m = Some bytes"
    if "key e = PStr k \<and> k \<noteq> []" for k
  proof -
    from that pk have "map_sum id Some (encode_utf8 k) = Inr (msg_key m)"
      by (simp add: partition_key_def)
    then show ?thesis by (rule map_sum_Some_Inr)
  qed
  have obj: "\<exists>bytes. dumps w (key_layout e) (key e) = Inr bytes \<and> msg_key m = Some bytes"
    if "truthy (key e) \<and> (\<forall>k. key e \<noteq> PStr k)"
  proof -
    from that pk have "map_sum id Some (dumps w (key_layout e) (key e)) = Inr (msg_key m)"
      by (cases "key e") (simp_all add: partition_key_def)
    then show ?thesis by (rule map_sum_Some_Inr)
  qed
  have seq: "\<exists>bytes. encode_utf8 (uid s) = Inr bytes \<and> msg_key m = Some bytes"
    if "\<not> truthy (key e) \<and> sequential s"
  proof -
    from that pk have "map_sum id Some (encode_utf8 (uid s)) = Inr (msg_key m)"
      by (simp add: partition_key_def)
    then show ?thesis by (rule map_sum_Some_Inr)
  qed
  have none: "msg_key m = None" if "\<not> truthy (key e) \<and> \<not> sequential s"
    using that pk by (simp add: partition_key_def)
  from str obj seq none show ?thesis by blast
qed

theorem partition_key_observed_witness:
  "\<exists>bytes. encode_utf8 (str_of ''k'') = Inr bytes \<and>
     msg_key \<lparr>msg_topic = PStr (str_of ''out''), msg_key = Some [0x6B :: 8 word],
              msg_value = PBytes [0x80]\<rparr> = Some bytes"
proof -
  let ?e = "Electron (PStr (str_of ''k'')) (PInt 1) PNone PNone False [] 0"
  let ?r = "produce sample_world (PElectron ?e) None sample_link"
  let ?m = "\<lparr>msg_topic = PStr (str_of ''out''), msg_key = Some [0x6B :: 8 word],
             msg_value = PBytes [0x80]\<rparr>"
  have pub: "produced (snd ?r) = produced sample_link @ [(True, ?m)]"
    by (simp add: produce_def submit_def Let_def sample_world_def sample_link_def
          partition_key_def destination_def serialize_def set_topic_def str_of_def
          utf8_char_def run_callbacks_produced [OF surjective_pairing])
  have run: "?r = (fst ?r, snd ?r)" by simp
  have k: "key ?e = PStr (str_of ''k'') \<and> str_of ''k'' \<noteq> []"
    by (simp add: str_of_def)
  from partition_key_observed [OF run pub]
  have "\<forall>k. key ?e = PStr k \<and> k \<noteq> [] \<longrightarrow>
          (\<exists>bytes. encode_utf8 k = Inr bytes \<and> msg_key ?m = Some bytes)"
    by (rule conjunct1)
  with k show ?thesis by blast
qed

text \<open>
  C5 (as stated) fails on a key that Python takes as false. On a sequential link, an
  envelope whose key is the empty string gets the encoded uid as its partition key, not
  the encoding of the key, which is the empty byte string; an envelope whose key is the
  integer zero gets the encoded uid as well, not the bytes \<open>pickle.dumps\<close> gives for zero.
  It fails on equal keys as well: the pair \<open>('kkk', 'kkk')\<close> gets one partition key when
  its items are two string objects and another when they are one.
\<close>

theorem partition_key_falsy_counterexample:
  "partition_key sample_world sample_link (Electron (PStr []) PNone PNone PNone False [] 0)
     = Inr (Some [0x6C, 0x69, 0x6E, 0x6B])
   \<and> encode_utf8 [] = Inr []
   \<and> partition_key sample_world sample_link (Electron (PInt 0) PNone PNone PNone False [] 0)
     = Inr (Some [0x6C, 0x69, 0x6E, 0x6B])
   \<and> dumps sample_world 0 (PInt 0) = Inr [0x80]
   \<and> partition_key pickle_world sample_link (Electron pair_key PNone PNone PNone False [] 0)
     = Inr (Some [0x80, 0x05, 0x95, 0x0F, 0, 0, 0, 0, 0, 0, 0,
                  0x8C, 0x03, 0x6B, 0x6B, 0x6B, 0x94, 0x8C, 0x03, 0x6B, 0x6B, 0x6B, 0x94,
                  0x86, 0x94, 0x2E])
   \<and> partition_key pickle_world sample_link (Electron pair_key PNone PNone PNone False [] 1)
     = Inr (Some [0x80, 0x05, 0x95, 0x0B, 0, 0, 0, 0, 0, 0, 0,
                  0x8C, 0x03, 0x6B, 0x6B, 0x6B, 0x94, 0x68, 0x00, 0x86, 0x94, 0x2E])"
  by (simp add: partition_key_def sample_world_def pickle_world_def pair_key_def
        sample_link_def str_of_def utf8_char_def)

text \<open>
  C6. An envelope without a destination topic is published to the first configured
  output topic: when the key and the value can be encoded and the producer does not
  raise, the call hands the producer one message, with that topic. With no output topic
  configured nothing is published and the link shuts down: \<open>_produce\<close> calls \<open>suicide\<close>
  and raises, and after the iteration of the producer thread the stop flag is up.
\<close>

theorem default_destination:
  assumes unset: "\<not> truthy (topic e)"
  shows "(output_topics s = t # ts \<and> partition_key w s e = Inr pk \<and>
          serialize w (set_topic (PStr t) e) = Inr v \<and>
          sync = (case synchronous_arg of None \<Rightarrow> synchronous s | Some x \<Rightarrow> x) \<and>
          \<not> producer_raises w sync \<lparr>msg_topic = PStr t, msg_key = pk, msg_value = v\<rparr> \<longrightarrow>
          produced (snd (produce w (PElectron e) synchronous_arg s)) =
            produced s @ [(sync, \<lparr>msg_topic = PStr t, msg_key = pk, msg_value = v\<rparr>)])
       \<and> (output_topics s = [] \<longrightarrow>
            will_stop (thread_target (kafka_producer_step w (s\<lparr>output_messages := e # queue\<rparr>))) \<and>
            produced (thread_target (kafka_producer_step w (s\<lparr>output_messages := e # queue\<rparr>))) =
              produced s \<and>
            (partition_key w s e = Inr pk \<longrightarrow>
               produce w (PElectron e) synchronous_arg s =
                 (Some IndexError,
                  suicide (Some ''Electron / default output topic unset'') False s)))"
proof (intro conjI impI)
  assume a: "output_topics s = t # ts \<and> partition_key w s e = Inr pk \<and>
          serialize w (set_topic (PStr t) e) = Inr v \<and>
          sync = (case synchronous_arg of None \<Rightarrow> synchronous s | Some x \<Rightarrow> x) \<and>
          \<not> producer_raises w sync \<lparr>msg_topic = PStr t, msg_key = pk, msg_value = v\<rparr>"
  let ?m = "\<lparr>msg_topic = PStr t, msg_key = pk, msg_value = v\<rparr>"
  from a have ot: "output_topics s = t # ts" and pk: "partition_key w s e = Inr pk"
    and v: "serialize w (set_topic (PStr t) e) = Inr v"
    and sy: "(case synchronous_arg of None \<Rightarrow> synchronous s | Some x \<Rightarrow> x) = sync"
    and nr: "\<not> producer_raises w sync ?m"
    by blast+
  have d: "destination s e = (Inr (PStr t), s)"
    using unset ot by (simp add: destination_def)
  have p: "produce w (PElectron e) synchronous_arg s =
          (if sync then run_callbacks w (callbacks e) (submit w sync ?m s)
           else (None, submit w sync ?m s))"
    unfolding produce_def Let_def by (simp add: d pk v sy)
  have s2: "produced (submit w sync ?m s) = produced s @ [(sync, ?m)]"
    using nr by (simp add: submit_def)
  show "produced (snd (produce w (PElectron e) synchronous_arg s)) = produced s @ [(sync, ?m)]"
  proof (cases sync)
    case True
    obtain r s' where rs: "run_callbacks w (callbacks e) (submit w sync ?m s) = (r, s')"
      by (cases "run_callbacks w (callbacks e) (submit w sync ?m s)")
    from run_callbacks_produced [OF rs] p True rs s2 show ?thesis by simp
  next
    case False
    with p s2 show ?thesis by simp
  qed
next
  assume no: "output_topics s = []"
  let ?s = "s\<lparr>output_messages := e # queue\<rparr>"
  let ?q = "s\<lparr>output_messages := queue\<rparr>"
  have d: "destination ?q e =
             (Inl IndexError, suicide (Some ''Electron / default output topic unset'') False ?q)"
    using unset no by (simp add: destination_def)
  have step: "kafka_producer_step w ?s = produce w (PElectron e) None ?q"
    by (simp add: kafka_producer_step_def)
  have "will_stop (thread_target (produce w (PElectron e) None ?q)) \<and>
        produced (thread_target (produce w (PElectron e) None ?q)) = produced s"
    by (cases "partition_key w ?q e")
       (simp_all add: produce_def d thread_target_def suicide_fields)
  with step show "will_stop (thread_target (kafka_producer_step w ?s))"
    and "produced (thread_target (kafka_producer_step w ?s)) = produced s"
    by simp_all
next
  assume no: "output_topics s = []" and pk: "partition_key w s e = Inr pk"
  have d: "destination s e =
             (Inl IndexError, suicide (Some ''Electron / default output topic unset'') False s)"
    using unset no by (simp add: destination_def)
  show "produce w (PElectron e) synchronous_arg s =
          (Some IndexError, suicide (Some ''Electron / default output topic unset'') False s)"
    by (simp add: produce_def pk d)
qed

theorem default_destination_witness:
  "produced (snd (produce sample_world (PElectron sample_electron) None sample_link)) =
     [(True, \<lparr>msg_topic = PStr (str_of ''out''), msg_key = Some [0x6C, 0x69, 0x6E, 0x6B],
              msg_value = PBytes [0x80]\<rparr>)]
   \<and> will_stop (thread_target (kafka_producer_step sample_world
        (sample_link\<lparr>output_topics := [], output_messages := [sample_electron]\<rparr>)))
   \<and> produce sample_world (PElectron sample_electron) None (sample_link\<lparr>output_topics := []\<rparr>) =
       (Some IndexError,
        suicide (Some ''Electron / default output topic unset'') False
          (sample_link\<lparr>output_topics := []\<rparr>))"
proof -
  let ?pk = "Some [0x6C, 0x69, 0x6E, 0x6B :: 8 word]"
  let ?none = "sample_link\<lparr>output_topics := []\<rparr>"
  have unset: "\<not> truthy (topic sample_electron)" by (simp add: sample_electron_def)
  have a: "output_topics sample_link = str_of ''out'' # [] \<and>
           partition_key sample_world sample_link sample_electron = Inr ?pk \<and>
           serialize sample_world (set_topic (PStr (str_of ''out'')) sample_electron) =
             Inr (PBytes [0x80]) \<and>
           True = (case None of None \<Rightarrow> synchronous sample_link | Some x \<Rightarrow> x) \<and>
           \<not> producer_raises sample_world True
               \<lparr>msg_topic = PStr (str_of ''out''), msg_key = ?pk, msg_value = PBytes [0x80]\<rparr>"
    by (simp add: sample_world_def sample_link_def sample_electron_def partition_key_def
          serialize_def set_topic_def str_of_def utf8_char_def)
  have b: "output_topics ?none = []" "partition_key sample_world ?none sample_electron = Inr ?pk"
    by (simp_all add: sample_world_def sample_link_def sample_electron_def partition_key_def
          str_of_def utf8_char_def)
  have p: "produced sample_link = []" by (simp add: sample_link_def)
  have q: "?none\<lparr>output_messages := [sample_electron]\<rparr> =
           sample_link\<lparr>output_topics := [], output_messages := [sample_electron]\<rparr>"
    by simp
  from default_destination [OF unset, of sample_link "str_of ''out''" "[]" sample_world ?pk
         "PBytes [0x80]" True None "[]"] a p
       default_destination [OF unset, of ?none _ _ sample_world ?pk _ _ None "[]"] b q
  show ?thesis by simp
qed

lemma send_guard_True: "send_guard v"
  by (simp add: send_guard_def class_truthy_def)

text \<open>
  C10. The guard \<open>type(output_content != list)\<close> holds for every content. A list passed
  to \<open>send\<close> is therefore wrapped whole in one envelope, whose value is the list: the
  call is the end of \<open>send\<close> run on that envelope, which puts the one envelope on the
  output queue in asynchronous mode and produces it in synchronous mode. The branch that
  sends the items one by one is not reached.
\<close>

theorem send_list_single_envelope:
  "send_guard v \<and>
   send w (PList items) topic_arg callback_arg callbacks_arg synchronous_arg s =
     send_electron w (Electron PNone (PList items) topic_arg PNone True [] 0)
       callback_arg callbacks_arg synchronous_arg s \<and>
   send w (PList items) topic_arg None None (Some False) s =
     (None, s\<lparr>output_messages :=
                output_messages s @ [Electron PNone (PList items) topic_arg PNone True [] 0]\<rparr>) \<and>
   send w (PList items) topic_arg None None (Some True) s =
     produce w (PElectron (Electron PNone (PList items) topic_arg PNone True [] 0)) (Some True) s"
  by (simp add: send_guard_True new_electron_def send_electron_def)

theorem send_list_single_envelope_witness:
  "output_messages (snd (send sample_world (PList [PInt 1, PInt 2]) PNone None None (Some False)
      sample_link)) = [Electron PNone (PList [PInt 1, PInt 2]) PNone PNone True [] 0]"
proof -
  have "send sample_world (PList [PInt 1, PInt 2]) PNone None None (Some False) sample_link =
          (None, sample_link\<lparr>output_messages := output_messages sample_link @
                   [Electron PNone (PList [PInt 1, PInt 2]) PNone PNone True [] 0]\<rparr>)"
    by (rule send_list_single_envelope [THEN conjunct2, THEN conjunct2, THEN conjunct1])
  then show ?thesis by (simp add: sample_link_def)
qed

subsection \<open>Remote procedure calls\<close>

lemma jsonrpc_call_not_found:
  "method \<notin> rpc_enabled_methods s \<Longrightarrow>
   jsonrpc_call w method kw s =
     (Inl MethodNotFoundError, s\<lparr>logs := logs s @ [Log DEBUG ''method cannot be called'']\<rparr>)"
  by (simp add: jsonrpc_call_def rpc_enabled_method_def)

lemma jsonrpc_call_raises:
  assumes "method \<in> rpc_enabled_methods s"
    and "handler w (CallKwargs method (if kw = PNone then PDict [] else kw)) = Raises"
  shows "\<exists>s1. jsonrpc_call w method kw s = (Inl InternalError, s1) \<and> will_stop s1 = will_stop s"
proof (cases "call_enters (CallKwargs method (if kw = PNone then PDict [] else kw))")
  case True
  with assms show ?thesis
    by (simp add: jsonrpc_call_def rpc_enabled_method_def invoke_def)
next
  case False
  with assms(1) show ?thesis
    by (simp add: jsonrpc_call_def rpc_enabled_method_def invoke_def)
qed

text \<open>
  C7. A call that names a method outside the registry: on the bus path
  \<open>_kafka_rpc_call\<close> logs at DEBUG and returns, with no handler invoked and nothing else
  changed; on the direct path \<open>_jsonrpc_call\<close> raises \<open>MethodNotFoundError\<close>, and the reply
  sent for a request that is not a notification carries the code \<open>-32601\<close>. A registered
  method whose handler raises gives \<open>InternalError\<close> and the code \<open>-32603\<close>, and the stop
  flag of the link is left as it was.
\<close>

theorem rpc_method_errors:
  "(method \<notin> rpc_enabled_methods s \<longrightarrow>
      (dict_get (value' e) (PStr (str_of ''method'')) = Inr (PStr method) \<longrightarrow>
         kafka_rpc_call w e commit_kafka_message_callback s =
           (None, s\<lparr>logs := logs s @ [Log DEBUG ''method cannot be called'']\<rparr>))
      \<and> jsonrpc_call w method kw s =
           (Inl MethodNotFoundError, s\<lparr>logs := logs s @ [Log DEBUG ''method cannot be called'']\<rparr>)
      \<and> rpc_request_monitor_step w False (method, kw) s =
           (Some (Some (- 32601), PNone),
            s\<lparr>logs := logs s @ [Log DEBUG ''method cannot be called'']\<rparr>))
   \<and> (method \<in> rpc_enabled_methods s \<and>
      handler w (CallKwargs method (if kw = PNone then PDict [] else kw)) = Raises \<longrightarrow>
        fst (jsonrpc_call w method kw s) = Inl InternalError
      \<and> fst (rpc_request_monitor_step w False (method, kw) s) = Some (Some (- 32603), PNone)
      \<and> will_stop (snd (rpc_request_monitor_step w False (method, kw) s)) = will_stop s)"
proof (intro conjI impI)
  assume "method \<notin> rpc_enabled_methods s"
    and "dict_get (value' e) (PStr (str_of ''method'')) = Inr (PStr method)"
  then show "kafka_rpc_call w e commit_kafka_message_callback s =
           (None, s\<lparr>logs := logs s @ [Log DEBUG ''method cannot be called'']\<rparr>)"
    by (simp add: kafka_rpc_call_def rpc_enabled_method_def Let_def)
next
  assume "method \<notin> rpc_enabled_methods s"
  then show "jsonrpc_call w method kw s =
           (Inl MethodNotFoundError, s\<lparr>logs := logs s @ [Log DEBUG ''method cannot be called'']\<rparr>)"
    by (rule jsonrpc_call_not_found)
next
  assume "method \<notin> rpc_enabled_methods s"
  then show "rpc_request_monitor_step w False (method, kw) s =
           (Some (Some (- 32601), PNone),
            s\<lparr>logs := logs s @ [Log DEBUG ''method cannot be called'']\<rparr>)"
    by (simp add: rpc_request_monitor_step_def jsonrpc_call_not_found METHOD_NOT_FOUND_def)
next
  assume a: "method \<in> rpc_enabled_methods s \<and>
      handler w (CallKwargs method (if kw = PNone then PDict [] else kw)) = Raises"
  then obtain s1 where j: "jsonrpc_call w method kw s = (Inl InternalError, s1)"
    and ws: "will_stop s1 = will_stop s"
    using jsonrpc_call_raises by blast
  show "fst (jsonrpc_call w method kw s) = Inl InternalError"
    by (simp add: j)
  show "fst (rpc_request_monitor_step w False (method, kw) s) = Some (Some (- 32603), PNone)"
    by (simp add: rpc_request_monitor_step_def j INTERNAL_ERROR_def)
  show "will_stop (snd (rpc_request_monitor_step w False (method, kw) s)) = will_stop s"
    by (simp add: rpc_request_monitor_step_def j ws)
qed

theorem rpc_method_errors_witness:
  "kafka_rpc_call sample_world
     (Electron PNone (PDict [(PStr (str_of ''method''), PStr (str_of ''drop''))]) PNone
        (PStr (str_of ''catenae_rpc_broadcast'')) False [] 0)
     commit_callback sample_link =
     (None, sample_link\<lparr>logs := [Log DEBUG ''method cannot be called'']\<rparr>)
   \<and> fst (rpc_request_monitor_step sample_world False (str_of ''drop'', PNone) sample_link) =
       Some (Some (- 32601), PNone)
   \<and> fst (rpc_request_monitor_step failing_world False (str_of ''available'', PNone) sample_link) =
       Some (Some (- 32603), PNone)"
proof -
  have a: "str_of ''drop'' \<notin> rpc_enabled_methods sample_link"
    by (simp add: sample_link_def str_of_def)
  have b: "dict_get (value' (Electron PNone (PDict [(PStr (str_of ''method''), PStr (str_of ''drop''))]) PNone
        (PStr (str_of ''catenae_rpc_broadcast'')) False [] 0)) (PStr (str_of ''method'')) = Inr (PStr (str_of ''drop''))"
    by simp
  have c: "str_of ''available'' \<in> rpc_enabled_methods sample_link \<and>
           handler failing_world (CallKwargs (str_of ''available'') (if PNone = PNone then PDict [] else PNone)) = Raises"
    by (simp add: sample_link_def failing_world_def)
  have l: "logs sample_link = []" by (simp add: sample_link_def)
  from rpc_method_errors [of "str_of ''drop''" sample_link _ sample_world commit_callback PNone] a b
       rpc_method_errors [of "str_of ''available''" sample_link _ failing_world _ PNone] c l
  show ?thesis by simp
qed

subsection \<open>The peer registry\<close>

lemma add_to_store_snd:
  "snd (add_to_store env a st) =
     (case announced env a of
        None \<Rightarrow> st
      | Some (u, g) \<Rightarrow>
          if \<not> hashable u then st
          else if \<not> hashable g then
            st\<lparr>by_uid := (by_uid st)(dict_key u \<mapsto> InstanceInfo (host a) (port a) (scheme a) u g)\<rparr>
          else
            \<lparr>by_uid = (by_uid st)(dict_key u \<mapsto> InstanceInfo (host a) (port a) (scheme a) u g),
             by_group = (by_group st)(dict_key g \<mapsto>
               (case by_group st (dict_key g) of None \<Rightarrow> Map.empty | Some m \<Rightarrow> m)
                 (dict_key u \<mapsto> InstanceInfo (host a) (port a) (scheme a) u g))\<rparr>)"
  by (simp add: add_to_store_def announced_def Let_def split: sum.splits)

lemma registers_keys:
  assumes "registers env a"
  obtains u g where "announced env a = Some (u, g)" "hashable u" "hashable g"
    "uid_key a = dict_key u" "group_key a = dict_key g"
proof -
  from assms obtain u g where ug: "announced env a = Some (u, g)" "hashable u" "hashable g"
    by (auto simp: registers_def split: option.splits)
  from ug(1) have "dict_get (call_context a) (PStr (str_of ''uid'')) = Inr u"
    and "dict_get (call_context a) (PStr (str_of ''group'')) = Inr g"
    by (auto simp: announced_def split: if_splits sum.splits)
  then have "uid_key a = dict_key u" "group_key a = dict_key g"
    by (simp_all add: uid_key_def group_key_def)
  with ug that show ?thesis by blast
qed

lemma add_to_store_registers:
  assumes "registers env a"
  shows "snd (add_to_store env a st) =
     \<lparr>by_uid = (by_uid st)(uid_key a \<mapsto> the (by_uid (snd (add_to_store env a st)) (uid_key a))),
      by_group = (by_group st)(group_key a \<mapsto>
        (case by_group st (group_key a) of None \<Rightarrow> Map.empty | Some m \<Rightarrow> m)
          (uid_key a \<mapsto> the (by_uid (snd (add_to_store env a st)) (uid_key a))))\<rparr>"
proof -
  from assms obtain u g where "announced env a = Some (u, g)" "hashable u" "hashable g"
    "uid_key a = dict_key u" "group_key a = dict_key g"
    by (rule registers_keys)
  then show ?thesis by (simp add: add_to_store_snd)
qed

lemma add_to_store_unchanged:
  assumes "\<not> registers env a" "\<not> stops_half_way env a"
  shows "snd (add_to_store env a st) = st"
  using assms
  by (auto simp: add_to_store_snd registers_def stops_half_way_def split: option.splits)

lemma by_uid_step:
  assumes "\<not> stops_half_way env a"
  shows "dom (by_uid (snd (add_to_store env a st))) =
     (if registers env a then insert (uid_key a) (dom (by_uid st)) else dom (by_uid st))"
proof (cases "registers env a")
  case True
  have "dom (by_uid (snd (add_to_store env a st))) = insert (uid_key a) (dom (by_uid st))"
    by (subst add_to_store_registers [OF True]) simp
  with True show ?thesis by simp
next
  case False
  with assms show ?thesis by (simp add: add_to_store_unchanged)
qed

lemma reachable_step:
  assumes "\<not> stops_half_way env a"
  shows "reachable_by_group (snd (add_to_store env a st)) u \<longleftrightarrow>
     (registers env a \<and> u = uid_key a) \<or> reachable_by_group st u"
proof (cases "registers env a")
  case False
  with assms show ?thesis by (simp add: add_to_store_unchanged)
next
  case True
  let ?g = "group_key a"
  let ?i = "the (by_uid (snd (add_to_store env a st)) (uid_key a))"
  let ?old = "case by_group st ?g of None \<Rightarrow> Map.empty | Some m \<Rightarrow> m"
  let ?bg = "(by_group st)(?g \<mapsto> ?old(uid_key a \<mapsto> ?i))"
  have bg: "by_group (snd (add_to_store env a st)) = ?bg"
    by (subst add_to_store_registers [OF True]) simp
  show ?thesis
  proof
    assume "reachable_by_group (snd (add_to_store env a st)) u"
    then obtain g m where gm: "?bg g = Some m" and u: "u \<in> dom m"
      unfolding reachable_by_group_def bg by blast
    show "(registers env a \<and> u = uid_key a) \<or> reachable_by_group st u"
    proof (cases "g = ?g")
      case False
      with gm have "by_group st g = Some m" by simp
      with u show ?thesis unfolding reachable_by_group_def by blast
    next
      case g: True
      with gm have m: "m = ?old(uid_key a \<mapsto> ?i)" by simp
      show ?thesis
      proof (cases "u = uid_key a")
        case True
        with \<open>registers env a\<close> show ?thesis by simp
      next
        case False
        with u m have "u \<in> dom ?old" by simp
        then obtain m0 where "by_group st ?g = Some m0" "u \<in> dom m0"
          by (cases "by_group st ?g") auto
        then show ?thesis unfolding reachable_by_group_def by blast
      qed
    qed
  next
    assume "(registers env a \<and> u = uid_key a) \<or> reachable_by_group st u"
    then show "reachable_by_group (snd (add_to_store env a st)) u"
    proof
      assume "registers env a \<and> u = uid_key a"
      then have "?bg ?g = Some (?old(uid_key a \<mapsto> ?i))" "u \<in> dom (?old(uid_key a \<mapsto> ?i))"
        by simp_all
      then show ?thesis unfolding reachable_by_group_def bg by blast
    next
      assume "reachable_by_group st u"
      then obtain g m where gm: "by_group st g = Some m" and u: "u \<in> dom m"
        unfolding reachable_by_group_def by blast
      show ?thesis
      proof (cases "g = ?g")
        case False
        with gm have "?bg g = Some m" by simp
        with u show ?thesis unfolding reachable_by_group_def bg by blast
      next
        case True
        with gm u have "?bg g = Some (?old(uid_key a \<mapsto> ?i))"
          "u \<in> dom (?old(uid_key a \<mapsto> ?i))" by auto
        then show ?thesis unfolding reachable_by_group_def bg by blast
      qed
    qed
  qed
qed

text \<open>
  As long as no call of the sequence stops half way, the two indices stay symmetric, and
  successful calls with distinct uids give as many entries as there were calls.
\<close>

lemma symmetry_add_all:
  "\<forall>a \<in> set calls. \<not> stops_half_way env a \<Longrightarrow>
   \<forall>u. u \<in> dom (by_uid st) \<longleftrightarrow> reachable_by_group st u \<Longrightarrow>
   u \<in> dom (by_uid (add_all env calls st)) \<longleftrightarrow> reachable_by_group (add_all env calls st) u"
proof (induction calls arbitrary: st u)
  case Nil
  then show ?case by simp
next
  case (Cons a calls)
  from Cons.prems(1) have a: "\<not> stops_half_way env a"
    and rest: "\<forall>a \<in> set calls. \<not> stops_half_way env a" by simp_all
  have "\<forall>u. u \<in> dom (by_uid (snd (add_to_store env a st))) \<longleftrightarrow>
            reachable_by_group (snd (add_to_store env a st)) u"
    using Cons.prems(2) by (simp add: by_uid_step [OF a] reachable_step [OF a])
  from Cons.IH [OF rest this] show ?case by simp
qed

lemma symmetry_from_empty:
  assumes "\<forall>a \<in> set calls. \<not> stops_half_way env a"
  shows "u \<in> dom (by_uid (add_all env calls empty_store)) \<longleftrightarrow>
         reachable_by_group (add_all env calls empty_store) u"
proof -
  have "\<forall>u. u \<in> dom (by_uid empty_store) \<longleftrightarrow> reachable_by_group empty_store u"
    by (simp add: empty_store_def reachable_by_group_def)
  from symmetry_add_all [OF assms this] show ?thesis .
qed

lemma registers_not_half_way: "registers env a \<Longrightarrow> \<not> stops_half_way env a"
  by (auto simp: registers_def stops_half_way_def split: option.splits)

lemma dom_add_all:
  "\<forall>a \<in> set calls. registers env a \<Longrightarrow>
   dom (by_uid (add_all env calls st)) = dom (by_uid st) \<union> uid_key ` set calls"
proof (induction calls arbitrary: st)
  case Nil
  then show ?case by simp
next
  case (Cons a calls)
  from Cons.prems have a: "registers env a" and rest: "\<forall>a \<in> set calls. registers env a"
    by simp_all
  from by_uid_step [OF registers_not_half_way [OF a], of st] a
  have "dom (by_uid (snd (add_to_store env a st))) = insert (uid_key a) (dom (by_uid st))"
    by simp
  with Cons.IH [OF rest, of "snd (add_to_store env a st)"] show ?case by auto
qed

lemma card_add_all:
  assumes "\<forall>a \<in> set calls. registers env a" and "distinct (map uid_key calls)"
  shows "card (dom (by_uid (add_all env calls empty_store))) = length calls"
proof -
  have "dom (by_uid (add_all env calls empty_store)) = set (map uid_key calls)"
    using dom_add_all [OF assms(1), of empty_store] by (simp add: empty_store_def)
  moreover have "card (set (map uid_key calls)) = length (map uid_key calls)"
    using assms(2) by (rule distinct_card)
  ultimately show ?thesis by simp
qed

text \<open>
  C9. A peer announces itself with a list as its group. The call writes the peer into
  \<open>by_uid\<close> and then raises \<open>TypeError\<close> at the test \<open>context['group'] in by_group\<close>:
  the uid has an entry in \<open>by_uid\<close> and is reachable under no group, and a later
  successful call of another peer leaves it so.
\<close>

theorem registry_asymmetric_after_list_group:
  "fst (add_to_store sample_environ list_group_announce empty_store) = Some TypeError
   \<and> PStr (str_of ''u1'') \<in> dom (by_uid (snd (add_to_store sample_environ list_group_announce
                                                   empty_store)))
   \<and> \<not> reachable_by_group (snd (add_to_store sample_environ list_group_announce empty_store))
         (PStr (str_of ''u1''))
   \<and> PStr (str_of ''u1'') \<in>
         dom (by_uid (add_all sample_environ (list_group_announce # sample_announces) empty_store))
   \<and> \<not> reachable_by_group
         (add_all sample_environ (list_group_announce # sample_announces) empty_store)
         (PStr (str_of ''u1''))"
proof -
  let ?st = "snd (add_to_store sample_environ list_group_announce empty_store)"
  have an: "announced sample_environ list_group_announce =
              Some (PStr (str_of ''u1''), PList [PStr (str_of ''g'')])"
    by (simp add: announced_def list_group_announce_def sample_environ_def it_is_me_def
          context_of_def str_of_def)
  have e: "fst (add_to_store sample_environ list_group_announce empty_store) = Some TypeError"
    by (simp add: add_to_store_def list_group_announce_def sample_environ_def it_is_me_def
          context_of_def str_of_def Let_def)
  have st: "?st = empty_store\<lparr>by_uid := (by_uid empty_store)(PStr (str_of ''u1'') \<mapsto>
               InstanceInfo (host list_group_announce) (port list_group_announce)
                 (scheme list_group_announce) (PStr (str_of ''u1'')) (PList [PStr (str_of ''g'')]))\<rparr>"
    by (simp add: add_to_store_snd an)
  have in1: "PStr (str_of ''u1'') \<in> dom (by_uid ?st)" by (simp add: st)
  have bg: "by_group ?st = by_group empty_store" by (simp add: st)
  have out1: "\<not> reachable_by_group ?st (PStr (str_of ''u1''))"
    unfolding reachable_by_group_def bg by (simp add: empty_store_def)
  have reg: "\<forall>a \<in> set sample_announces. registers sample_environ a"
    by (simp add: sample_announces_def registers_def announced_def sample_environ_def
          it_is_me_def context_of_def str_of_def)
  have keys: "uid_key ` set sample_announces = {PStr (str_of ''a''), PStr (str_of ''b'')}"
    by (auto simp: sample_announces_def uid_key_def context_of_def str_of_def)
  have in2: "PStr (str_of ''u1'') \<in> dom (by_uid (add_all sample_environ sample_announces ?st))"
    using in1 by (simp add: dom_add_all [OF reg])
  have step: "reachable_by_group (add_all sample_environ calls st') u \<longleftrightarrow>
              u \<in> uid_key ` set calls \<or> reachable_by_group st' u"
    if "\<forall>a \<in> set calls. registers sample_environ a" for calls st' u
    using that
  proof (induction calls arbitrary: st')
    case Nil
    then show ?case by simp
  next
    case (Cons a calls)
    from Cons.prems have a: "registers sample_environ a"
      and rest: "\<forall>a \<in> set calls. registers sample_environ a" by simp_all
    from Cons.IH [OF rest, of "snd (add_to_store sample_environ a st')"]
         reachable_step [OF registers_not_half_way [OF a], of st' u] a
    show ?case by auto
  qed
  have out2: "\<not> reachable_by_group (add_all sample_environ sample_announces ?st)
                 (PStr (str_of ''u1''))"
    using out1 by (simp add: step [OF reg] keys str_of_def)
  from e in1 out1 in2 out2 show ?thesis by simp
qed

subsection \<open>The commit loop\<close>

text \<open>
  The function returns exactly when some call of \<open>consumer.commit\<close> succeeds, after one
  call for each failure before the first success and one for the success.
\<close>

lemma commit_loop_returns_iff:
  "(\<exists>st'. commit_loop outcomes st = Some st') \<longleftrightarrow> True \<in> set outcomes"
  by (induction outcomes arbitrary: st) (auto simp: Let_def)

lemma commit_loop_calls:
  "commit_loop outcomes st = Some st' \<Longrightarrow>
   commit_calls st' = commit_calls st + length (takeWhile Not outcomes) + 1"
  by (induction outcomes arbitrary: st) (auto simp: Let_def split: if_splits)

lemma commit_loop_log:
  "attempts st \<le> 1 \<Longrightarrow> commit_loop outcomes st = Some st' \<Longrightarrow>
   commit_log st' = commit_log st @
     replicate (length (takeWhile Not outcomes))
       (Log EXCEPTION ''exception when trying to commit the message'')"
proof (induction outcomes arbitrary: st)
  case Nil
  then show ?case by simp
next
  case (Cons ok outcomes)
  show ?case
  proof (cases ok)
    case True
    with Cons.prems show ?thesis by (auto simp: Let_def)
  next
    case False
    let ?st2 = "st\<lparr>commit_calls := commit_calls st + 1,
                   commit_log := commit_log st @
                     [Log EXCEPTION ''exception when trying to commit the message'']\<rparr>"
    from Cons.prems False have run: "commit_loop outcomes ?st2 = Some st'"
      by (simp add: Let_def)
    have "attempts ?st2 \<le> 1" using Cons.prems(1) by simp
    from Cons.IH [OF this run] False show ?thesis
      by (simp add: replicate_app_Cons_same)
  qed
qed

lemma commit_kafka_message_returns_iff:
  "(\<exists>st'. commit_kafka_message outcomes lg = Some st') \<longleftrightarrow> True \<in> set outcomes"
proof -
  let ?st0 = "\<lparr>attempts = 0, commit_calls = 0,
               commit_log = lg @ [Log DEBUG ''trying to commit the message (attempt)'']\<rparr>"
  have "(\<exists>st'. commit_kafka_message outcomes lg = Some st') \<longleftrightarrow>
        (\<exists>st'. commit_loop outcomes ?st0 = Some st')"
    by (auto simp: commit_kafka_message_def split: option.splits)
  then show ?thesis by (simp only: commit_loop_returns_iff)
qed

text \<open>Whatever the outcomes, the log of a commit that returns holds no warning.\<close>

lemma commit_kafka_message_never_warns:
  assumes "commit_kafka_message outcomes lg = Some st'"
  shows "commit_log st' =
           lg @ [Log DEBUG ''trying to commit the message (attempt)''] @
           replicate (length (takeWhile Not outcomes))
             (Log EXCEPTION ''exception when trying to commit the message'') @
           [Log DEBUG ''message commited'']"
proof -
  let ?st0 = "\<lparr>attempts = 0, commit_calls = 0,
               commit_log = lg @ [Log DEBUG ''trying to commit the message (attempt)'']\<rparr>"
  from assms obtain st where run: "commit_loop outcomes ?st0 = Some st"
    and st': "st' = st\<lparr>commit_log := commit_log st @ [Log DEBUG ''message commited'']\<rparr>"
    by (auto simp: commit_kafka_message_def split: option.splits)
  have "attempts ?st0 \<le> 1" by simp
  from commit_loop_log [OF this run] st' show ?thesis by simp
qed

text \<open>
  C8. Committing is retried until it succeeds, but no retry logs a warning: with three
  failing calls of \<open>consumer.commit\<close> followed by a successful one, the function makes four
  calls and returns, and its log holds the first DEBUG entry, three EXCEPTION entries and
  the last DEBUG entry, with no WARN entry among them.
\<close>

theorem commit_retries_log_no_warning:
  "map_option (\<lambda>st. (commit_calls st, map lvl (commit_log st)))
     (commit_kafka_message [False, False, False, True] []) =
   Some (4, [DEBUG, EXCEPTION, EXCEPTION, EXCEPTION, DEBUG])"
  by (simp add: commit_kafka_message_def Let_def)

subsection \<open>Time slices\<close>

text \<open>
  The clock does not run backwards, so \<open>start_time - now\<close> is never positive: for a
  positive budget \<open>in_time\<close> holds at every reading of the clock after the start.
\<close>

lemma in_time_never_expires:
  "start_time \<le> now \<Longrightarrow> 0 < assigned_time \<Longrightarrow> in_time now start_time assigned_time"
  by (simp add: in_time_def)

text \<open>
  C2. A slice of 900 seconds that started at time 0: at the reading 1000000 ms, when 1000
  seconds have gone by, \<open>in_time\<close> still holds and the loop of the slice goes on.
\<close>

theorem in_time_after_expiry:
  "in_time 1000000 0 900 \<and> slice_open 1000000 0 900 False"
  by (simp add: in_time_def slice_open_def)

subsection \<open>Topic time budgets\<close>

lemma index_loop_assignment:
  "fst (fold (index_step b r) [0..<k] (None, 0)) =
     (if 0 \<le> r \<and> r < int k \<and> r \<le> 256 then Some (b ^ nat r) else None)"
  by (induction k) (auto simp: index_step_def is_same_int_def Let_def)

lemma index_loop_aggregate:
  "snd (fold (index_step b r) [0..<k] (None, 0)) = (\<Sum>j<k. b ^ j)"
  by (induction k) (auto simp: index_step_def Let_def)

lemma sum_powers_pos: "0 < b \<Longrightarrow> 0 < n \<Longrightarrow> 0 < (\<Sum>j<n. (b::real) ^ j)"
  by (rule sum_pos) auto

text \<open>
  Where the reverse index is at most 256, so with at most 257 topics for every topic,
  the budget of the topic at \<open>index\<close> is the window times \<open>base ^ (N - 1 - index)\<close> over
  the sum of the powers.
\<close>

lemma get_index_assignment_formula:
  assumes "index < n" "n - 1 - index \<le> 256" "0 < b"
  shows "get_index_assignment w index n b = Inr (w * b ^ (n - 1 - index) / (\<Sum>j<n. b ^ j))"
proof -
  let ?r = "int n - int index - 1"
  let ?res = "fold (index_step b ?r) [0..<n] (None, 0)"
  have r: "0 \<le> ?r" "?r < int n" "?r \<le> 256" "nat ?r = n - 1 - index"
    using assms by auto
  have f: "fst ?res = Some (b ^ (n - 1 - index))"
    using r by (simp add: index_loop_assignment)
  have s: "snd ?res = (\<Sum>j<n. b ^ j)" by (rule index_loop_aggregate)
  have pos: "(\<Sum>j<n. b ^ j) \<noteq> 0" using sum_powers_pos [of b n] assms by simp
  have "?res = (Some (b ^ (n - 1 - index)), (\<Sum>j<n. b ^ j))"
    using f s by (metis prod.collapse)
  then show ?thesis
    using pos by (simp add: get_index_assignment_def Let_def)
qed

lemma budgets_sum_to_window:
  assumes "0 < n" "0 < b"
  shows "(\<Sum>i<n. w * b ^ (n - 1 - i) / (\<Sum>j<n. b ^ j)) = (w::real)"
proof -
  have "(\<Sum>i<n. b ^ (n - 1 - i)) = (\<Sum>i<n. b ^ (n - Suc i))"
    by (rule sum.cong) simp_all
  also have "\<dots> = (\<Sum>j<n. b ^ j)"
    by (rule sum.nat_diff_reindex)
  finally have re: "(\<Sum>i<n. b ^ (n - 1 - i)) = (\<Sum>j<n. b ^ j)" .
  have pos: "(\<Sum>j<n. b ^ j) \<noteq> 0" using sum_powers_pos [of b n] assms by simp
  have "(\<Sum>i<n. w * b ^ (n - 1 - i) / (\<Sum>j<n. b ^ j)) =
        w * (\<Sum>i<n. b ^ (n - 1 - i)) / (\<Sum>j<n. b ^ j)"
    by (simp add: sum_distrib_left sum_divide_distrib)
  also have "\<dots> = w" using re pos by simp
  finally show ?thesis .
qed

lemma budgets_decrease:
  assumes "i < k" "k < n" "1 < b" "0 < w"
  shows "w * b ^ (n - 1 - k) / (\<Sum>j<n. b ^ j) < w * b ^ (n - 1 - i) / (\<Sum>j<n. (b::real) ^ j)"
proof -
  have pos: "0 < (\<Sum>j<n. b ^ j)" using sum_powers_pos [of b n] assms by simp
  have "b ^ (n - 1 - k) < b ^ (n - 1 - i)"
    using assms by (intro power_strict_increasing) auto
  then show ?thesis using pos assms by (simp add: divide_strict_right_mono)
qed

text \<open>
  The dictionary built in weighted mode for at most 257 distinct topics holds that budget
  for each of them; the entry \<open>-1\<close> written first for a one-letter first topic is
  overwritten.
\<close>

lemma assign_topics_lookup:
  assumes "distinct ts" "k + length ts \<le> n" "n \<le> 257"
  shows "\<exists>asg'. assign_topics n k ts asg = Inr asg' \<and>
           (\<forall>j < length ts. map_of asg' (Topic (ts ! j)) =
                Some (900 * 1.7 ^ (n - 1 - (k + j)) / (\<Sum>j<n. 1.7 ^ j))) \<and>
           (\<forall>x. x \<notin> Topic ` set ts \<longrightarrow> map_of asg' x = map_of asg x)"
  using assms
proof (induction ts arbitrary: k asg)
  case Nil
  then show ?case by simp
next
  case (Cons t ts)
  let ?v = "900 * 1.7 ^ (n - 1 - k) / (\<Sum>j<n. (1.7::real) ^ j)"
  let ?asg1 = "AList.update (Topic t) ?v asg"
  have g: "get_index_assignment 900 k n 1.7 = Inr ?v"
    using Cons.prems by (intro get_index_assignment_formula) auto
  have "distinct ts" "Suc k + length ts \<le> n" using Cons.prems by auto
  from Cons.IH [OF this Cons.prems(3), of ?asg1] obtain asg'
    where run: "assign_topics n (Suc k) ts ?asg1 = Inr asg'"
      and look: "\<forall>j < length ts. map_of asg' (Topic (ts ! j)) =
                   Some (900 * 1.7 ^ (n - 1 - (Suc k + j)) / (\<Sum>j<n. 1.7 ^ j))"
      and rest: "\<forall>x. x \<notin> Topic ` set ts \<longrightarrow> map_of asg' x = map_of ?asg1 x"
    by blast
  have step: "assign_topics n k (t # ts) asg = Inr asg'"
    using g run by simp
  have first: "map_of asg' (Topic t) = Some ?v"
  proof -
    have "Topic t \<notin> Topic ` set ts" using Cons.prems(1) by auto
    with rest have "map_of asg' (Topic t) = map_of ?asg1 (Topic t)" by blast
    then show ?thesis by (simp add: update_conv')
  qed
  have all: "map_of asg' (Topic ((t # ts) ! j)) =
               Some (900 * 1.7 ^ (n - 1 - (k + j)) / (\<Sum>j<n. 1.7 ^ j))"
    if "j < length (t # ts)" for j
  proof (cases j)
    case 0
    with first show ?thesis by simp
  next
    case (Suc j')
    with that look show ?thesis by simp
  qed
  have others: "map_of asg' x = map_of asg x" if "x \<notin> Topic ` set (t # ts)" for x
  proof -
    from that have "x \<notin> Topic ` set ts" "x \<noteq> Topic t" by auto
    with rest show ?thesis by (simp add: update_conv')
  qed
  from step all others show ?case by blast
qed

lemma set_input_topic_assignments_exp:
  assumes "distinct input_topics" "input_topics \<noteq> []" "length input_topics \<le> 257"
  shows "\<exists>asg. set_input_topic_assignments ''exp'' input_topics old = Inr asg \<and>
           (\<forall>i < length input_topics. map_of asg (Topic (input_topics ! i)) =
              Some (900 * 1.7 ^ (length input_topics - 1 - i) /
                      (\<Sum>j<length input_topics. 1.7 ^ j)))"
proof -
  from assms(2) obtain t ts where ts: "input_topics = t # ts" by (cases input_topics) auto
  let ?init = "if length t = 1 then [(Topic t, - 1)] else []"
  from assign_topics_lookup [OF assms(1), of 0 "length input_topics" ?init] assms(3)
  obtain asg where "assign_topics (length input_topics) 0 input_topics ?init = Inr asg"
    and "\<forall>j < length input_topics. map_of asg (Topic (input_topics ! j)) =
           Some (900 * 1.7 ^ (length input_topics - 1 - (0 + j)) /
                   (\<Sum>j<length input_topics. 1.7 ^ j))"
    by auto
  then show ?thesis by (simp add: set_input_topic_assignments_def ts)
qed

text \<open>
  When the reverse index is above 256 the identity test never succeeds and the function
  raises; with more than 257 topics this happens for the first topic, and no assignment
  is computed.
\<close>

lemma get_index_assignment_unbound:
  assumes "256 < int n - int index - 1"
  shows "get_index_assignment w index n b = Inl UnboundLocalError"
proof -
  let ?r = "int n - int index - 1"
  let ?res = "fold (index_step b ?r) [0..<n] (None, 0)"
  have "fst ?res = None" using assms by (simp add: index_loop_assignment)
  then obtain agg where "?res = (None, agg)" by (metis prod.collapse)
  then show ?thesis by (simp add: get_index_assignment_def Let_def)
qed

lemma set_input_topic_assignments_unbound:
  assumes "257 < length input_topics"
  shows "set_input_topic_assignments ''exp'' input_topics old = Inl UnboundLocalError"
proof -
  from assms obtain t ts where ts: "input_topics = t # ts" by (cases input_topics) auto
  have "get_index_assignment 900 0 (length input_topics) 1.7 = Inl UnboundLocalError"
    using assms by (intro get_index_assignment_unbound) simp
  then show ?thesis by (simp add: set_input_topic_assignments_def ts)
qed

text \<open>
  C3. With 258 input topics the budget of the first topic is not computed: the reverse
  index is 257, the test \<open>index is reverse_index\<close> fails on every iteration, and the
  function raises \<open>UnboundLocalError\<close> instead of returning \<open>900 * 1.7 ^ 257\<close> over the sum.
\<close>

theorem index_assignment_unbound_258:
  "get_index_assignment 900 0 258 1.7 = Inl UnboundLocalError"
  by (rule get_index_assignment_unbound) simp

subsection \<open>Penalization\<close>

text \<open>
  On a subscription that the consumer builds (the single topic of the slice in weighted
  mode, the list of input topics in parity mode) a message of an asynchronous link is put
  on the work queue at once: the buffer, the counts and the test of the penalization
  rule are not touched, and the message does not end the slice.
\<close>

lemma consume_message_direct:
  "subscription_of input_mode input_topics t = Some subscription \<Longrightarrow>
   consume_message False input_mode subscription minimum_messages m c =
     (Continue, c\<lparr>input_messages := input_messages c @ [Plain m]\<rparr>)"
  by (auto simp: subscription_of_def consume_message_def split: if_splits)

text \<open>The rule can end a slice only on an empty subscription, which no mode builds.\<close>

lemma consume_message_break_empty_subscription:
  "fst (consume_message synchronous_mode input_mode subscription minimum_messages m c) = Break
   \<Longrightarrow> subscription = []"
  by (cases subscription; cases "message_buffer c")
     (auto simp: consume_message_def penalized_def break_consumer_loop_def Let_def
           split: if_splits)

text \<open>
  A slice of an asynchronous link in weighted mode, whatever its polls return: the loop
  is not left by a \<open>break\<close>, nothing is buffered and the previous count does not move.
\<close>

lemma weighted_slice_never_breaks:
  "fst (slice_run False ''exp'' [t] minimum_messages polls c) = Continue \<and>
   message_buffer (snd (slice_run False ''exp'' [t] minimum_messages polls c)) = message_buffer c \<and>
   prev_queued_messages (snd (slice_run False ''exp'' [t] minimum_messages polls c)) =
     prev_queued_messages c"
proof (induction polls arbitrary: c)
  case Nil
  show ?case by simp
next
  case (Cons p polls)
  obtain c1 where h: "handle_poll False ''exp'' [t] minimum_messages p c = (Continue, c1)"
    and b: "message_buffer c1 = message_buffer c"
    and q: "prev_queued_messages c1 = prev_queued_messages c"
    by (cases p)
       (auto simp: handle_poll_def consume_message_def break_consumer_loop_def)
  from Cons.IH [of c1] h b q show ?case by simp
qed



end
